theory Spec2Isabelle
  imports
    Complex_Main
    "HOL-Library.AList"
    "HOL-Library.FSet"
    "HOL-Library.Finite_Map"
    "HOL-Library.Char_ord"
    "HOL-Library.List_Lexorder"
begin

chapter \<open>Academic graph builder and graph-enhanced planner\<close>

text \<open>
  A shallow embedding of \<^verbatim>\<open>src/academic_graph_builder.py\<close> (class
  \<^verbatim>\<open>AcademicGraphBuilder\<close>) and \<^verbatim>\<open>src/graph_enhanced_tools.py\<close> (class
  \<^verbatim>\<open>GraphEnhancedAcademicPlanner\<close>).

  Conventions.
  \<^item> Python \<^verbatim>\<open>str\<close> is \<open>string\<close>; the text is taken to be ASCII, so that one \<open>char\<close>
    is one code point and the character classes below are the ASCII ones.
  \<^item> Python \<^verbatim>\<open>int\<close> is \<open>int\<close>; \<^verbatim>\<open>//\<close> is \<open>div\<close> (both round towards minus infinity).
  \<^item> A \<^verbatim>\<open>dict\<close> that is iterated is an association list in insertion order, written with
    \<open>AList.update\<close> (a key that exists keeps its place, a new key goes to the end).
  \<^item> A dataclass is a record. The field names carry a prefix (\<open>c_\<close>, \<open>p_\<close>, \<open>d_\<close>, ...)
    because several classes share the names \<^verbatim>\<open>code\<close>, \<^verbatim>\<open>name\<close>, \<^verbatim>\<open>level\<close>, \<^verbatim>\<open>description\<close>.
  \<^item> The graph store and the relational store are state, passed in and returned.
    A failure of a store (network, authentication) is outside the model.
\<close>

section \<open>Python strings\<close>

text \<open>Characters are compared by code point (the order of \<open>Char_ord\<close>).\<close>

definition is_upper :: "char \<Rightarrow> bool" where
  "is_upper c = (CHR ''A'' \<le> c \<and> c \<le> CHR ''Z'')"

definition is_lower :: "char \<Rightarrow> bool" where
  "is_lower c = (CHR ''a'' \<le> c \<and> c \<le> CHR ''z'')"

definition is_digit :: "char \<Rightarrow> bool" where
  "is_digit c = (CHR ''0'' \<le> c \<and> c \<le> CHR ''9'')"

text \<open>Whitespace of \<^verbatim>\<open>str.strip\<close>, \<^verbatim>\<open>str.split\<close> and \<^verbatim>\<open>\s\<close>: tab to carriage return,
  the four separators 28 to 31, and the space.\<close>

definition is_space :: "char \<Rightarrow> bool" where
  "is_space c = ((CHR 0x09 \<le> c \<and> c \<le> CHR 0x0D) \<or> (CHR 0x1C \<le> c \<and> c \<le> CHR 0x20))"

definition is_alpha :: "char \<Rightarrow> bool" where
  "is_alpha c = (is_upper c \<or> is_lower c)"

text \<open>The word characters of \<^verbatim>\<open>\b\<close>.\<close>

definition is_word :: "char \<Rightarrow> bool" where
  "is_word c = (is_alpha c \<or> is_digit c \<or> c = CHR ''_'')"

definition upper_char :: "char \<Rightarrow> char" where
  "upper_char c = (if is_lower c then char_of (of_char c - (32::nat)) else c)"

definition lower_char :: "char \<Rightarrow> char" where
  "lower_char c = (if is_upper c then char_of (of_char c + (32::nat)) else c)"

text \<open>The two cases of a letter differ in one bit (32); the equations below let the
  evaluator flip it instead of doing arithmetic.\<close>

lemma upper_char_code [code]:
  "upper_char (Char b0 b1 b2 b3 b4 b5 b6 b7) =
     (if is_lower (Char b0 b1 b2 b3 b4 b5 b6 b7) then Char b0 b1 b2 b3 b4 False b6 b7
      else Char b0 b1 b2 b3 b4 b5 b6 b7)"
  by (cases b5; cases b6; cases b7)
     (simp_all add: upper_char_def is_lower_def char_of_def bit_Suc_0_iff)

lemma lower_char_code [code]:
  "lower_char (Char b0 b1 b2 b3 b4 b5 b6 b7) =
     (if is_upper (Char b0 b1 b2 b3 b4 b5 b6 b7) then Char b0 b1 b2 b3 b4 True b6 b7
      else Char b0 b1 b2 b3 b4 b5 b6 b7)"
  by (cases b5; cases b6; cases b7)
     (simp_all add: lower_char_def is_upper_def char_of_def bit_Suc_0_iff)

definition py_upper :: "string \<Rightarrow> string" where
  "py_upper s = map upper_char s"

definition py_lower :: "string \<Rightarrow> string" where
  "py_lower s = map lower_char s"

definition py_strip :: "string \<Rightarrow> string" where
  "py_strip s = rev (dropWhile is_space (rev (dropWhile is_space s)))"

text \<open>\<^verbatim>\<open>s.isdigit()\<close>: non-empty and all digits.\<close>

definition py_isdigit :: "string \<Rightarrow> bool" where
  "py_isdigit s = (s \<noteq> [] \<and> list_all is_digit s)"

text \<open>\<^verbatim>\<open>s.replace(a, b)\<close> for one-character \<^verbatim>\<open>a\<close> and \<^verbatim>\<open>b\<close>.\<close>

definition replace_char :: "char \<Rightarrow> char \<Rightarrow> string \<Rightarrow> string" where
  "replace_char a b s = map (\<lambda>c. if c = a then b else c) s"

text \<open>\<^verbatim>\<open>sub in s\<close>.\<close>

fun contains :: "string \<Rightarrow> string \<Rightarrow> bool" where
  "contains [] sub = (sub = [])"
| "contains (c # s) sub = (take (length sub) (c # s) = sub \<or> contains s sub)"

text \<open>\<^verbatim>\<open>s.startswith(p)\<close>.\<close>

definition startswith :: "string \<Rightarrow> string \<Rightarrow> bool" where
  "startswith s p = (take (length p) s = p)"

text \<open>\<^verbatim>\<open>s.title()\<close>: a letter that follows a letter is lowered, any other letter is raised.\<close>

fun title_from :: "bool \<Rightarrow> string \<Rightarrow> string" where
  "title_from prev [] = []"
| "title_from prev (c # s) =
     (if is_alpha c then (if prev then lower_char c else upper_char c) # title_from True s
      else c # title_from False s)"

definition py_title :: "string \<Rightarrow> string" where
  "py_title s = title_from False s"

text \<open>\<^verbatim>\<open>sep.join(xs)\<close>.\<close>

fun join :: "string \<Rightarrow> string list \<Rightarrow> string" where
  "join sep [] = []"
| "join sep [x] = x"
| "join sep (x # y # ys) = x @ sep @ join sep (y # ys)"

text \<open>\<^verbatim>\<open>s.split()\<close>, of which the program reads the first word only.\<close>

definition first_word :: "string \<Rightarrow> string option" where
  "first_word s = (case dropWhile is_space s of [] \<Rightarrow> None
                   | w \<Rightarrow> Some (takeWhile (\<lambda>c. \<not> is_space c) w))"

text \<open>\<^verbatim>\<open>int(s)\<close> on a string of decimal digits, the only strings the program converts
  (they are matches of \<^verbatim>\<open>\d{4}\<close> and \<^verbatim>\<open>\d+\<close>); \<open>None\<close> is \<^verbatim>\<open>ValueError\<close>.\<close>

definition digit_val :: "char \<Rightarrow> int" where
  "digit_val c = int (of_char c) - 48"

definition py_int :: "string \<Rightarrow> int option" where
  "py_int s = (if py_isdigit s then Some (fold (\<lambda>c n. 10 * n + digit_val c) s 0) else None)"

section \<open>The regular expressions of Python's \<^verbatim>\<open>re\<close> that the program uses\<close>

text \<open>
  A backtracking matcher with the semantics of \<^verbatim>\<open>re\<close>: alternatives are tried left to
  right, a greedy repetition takes as much as it can and gives back, a lazy one takes as
  little as it can, and the first way that lets the rest of the pattern match wins. Every
  repetition in the program's patterns is over a character set, so a repetition consumes
  one character per round.
\<close>

datatype citem = CChar char | CRange char char | CDigit | CSpace

fun in_item :: "char \<Rightarrow> citem \<Rightarrow> bool" where
  "in_item c (CChar d) = (c = d)"
| "in_item c (CRange lo hi) = (lo \<le> c \<and> c \<le> hi)"
| "in_item c CDigit = is_digit c"
| "in_item c CSpace = is_space c"

text \<open>Membership in \<^verbatim>\<open>[...]\<close> (\<open>neg\<close> for \<^verbatim>\<open>[^...]\<close>); under \<^verbatim>\<open>re.IGNORECASE\<close> a character
  is in the set when one of its two cases is.\<close>

definition in_set :: "bool \<Rightarrow> bool \<Rightarrow> citem list \<Rightarrow> char \<Rightarrow> bool" where
  "in_set icase neg items c =
     (let hit = (list_ex (in_item c) items \<or>
                 (icase \<and> (list_ex (in_item (lower_char c)) items \<or>
                            list_ex (in_item (upper_char c)) items)))
      in if neg then \<not> hit else hit)"

text \<open>
  \<open>Rep lo hi greedy neg items\<close> is \<^verbatim>\<open>[items]{lo,hi}\<close> (\<open>hi = None\<close>: no upper bound;
  \<open>greedy = False\<close>: the lazy \<^verbatim>\<open>{lo,hi}?\<close>). \<open>Grp n r\<close> is the capturing group number \<open>n\<close>.
  \<open>WordB\<close> is \<^verbatim>\<open>\b\<close>, \<open>Bol\<close> is \<^verbatim>\<open>^\<close> and \<open>Eol\<close> is \<^verbatim>\<open>$\<close>, both without \<^verbatim>\<open>re.MULTILINE\<close>.
  \<open>Close n start\<close> is internal: it ends group \<open>n\<close>, opened at \<open>start\<close>.
\<close>

datatype rx =
    Eps
  | Chr char
  | Set bool "citem list"
  | Rep nat "nat option" bool bool "citem list"
  | Seq rx rx
  | Alt rx rx
  | Opt rx
  | Grp nat rx
  | WordB
  | Bol
  | Eol
  | Close nat nat

fun weight :: "rx \<Rightarrow> nat" where
  "weight (Seq a b) = weight a + weight b + 1"
| "weight (Alt a b) = weight a + weight b + 1"
| "weight (Opt a) = weight a + 1"
| "weight (Grp n a) = weight a + 2"
| "weight _ = 1"

text \<open>The captures: group number, start, end; the latest first.\<close>

type_synonym caps = "(nat \<times> nat \<times> nat) list"

text \<open>
  \<open>rx_match icase k pc i xs cs\<close> matches the patterns \<open>k\<close>, one after the other, at
  position \<open>i\<close>, where \<open>xs\<close> is the text from \<open>i\<close> on and \<open>pc\<close> is the character
  before \<open>i\<close> (\<open>None\<close> at the start of the text). It returns the end of the match and
  the captures.
\<close>

definition word_before :: "char option \<Rightarrow> bool" where
  "word_before pc = (case pc of None \<Rightarrow> False | Some c \<Rightarrow> is_word c)"

definition word_after :: "string \<Rightarrow> bool" where
  "word_after xs = (case xs of [] \<Rightarrow> False | x # _ \<Rightarrow> is_word x)"

function (sequential) rx_match ::
  "bool \<Rightarrow> rx list \<Rightarrow> char option \<Rightarrow> nat \<Rightarrow> string \<Rightarrow> caps \<Rightarrow> (nat \<times> caps) option" where
  "rx_match ic [] pc i xs cs = Some (i, cs)"
| "rx_match ic (Eps # k) pc i xs cs = rx_match ic k pc i xs cs"
| "rx_match ic (Chr c # k) pc i xs cs =
     (case xs of [] \<Rightarrow> None
      | x # xs' \<Rightarrow>
          if x = c \<or> (ic \<and> lower_char x = lower_char c)
          then rx_match ic k (Some x) (Suc i) xs' cs else None)"
| "rx_match ic (Set neg items # k) pc i xs cs =
     (case xs of [] \<Rightarrow> None
      | x # xs' \<Rightarrow>
          if in_set ic neg items x then rx_match ic k (Some x) (Suc i) xs' cs else None)"
| "rx_match ic (Rep lo hi greedy neg items # k) pc i xs cs =
     (if greedy
      then (case (case xs of [] \<Rightarrow> None
                  | x # xs' \<Rightarrow>
                      if hi \<noteq> Some 0 \<and> in_set ic neg items x
                      then rx_match ic
                             (Rep (lo - 1) (map_option (\<lambda>h. h - 1) hi) greedy neg items # k)
                             (Some x) (Suc i) xs' cs
                      else None) of
              Some r \<Rightarrow> Some r
            | None \<Rightarrow> if lo = 0 then rx_match ic k pc i xs cs else None)
      else (case (if lo = 0 then rx_match ic k pc i xs cs else None) of
              Some r \<Rightarrow> Some r
            | None \<Rightarrow>
                (case xs of [] \<Rightarrow> None
                 | x # xs' \<Rightarrow>
                     if hi \<noteq> Some 0 \<and> in_set ic neg items x
                     then rx_match ic
                            (Rep (lo - 1) (map_option (\<lambda>h. h - 1) hi) greedy neg items # k)
                            (Some x) (Suc i) xs' cs
                     else None)))"
| "rx_match ic (Seq a b # k) pc i xs cs = rx_match ic (a # b # k) pc i xs cs"
| "rx_match ic (Alt a b # k) pc i xs cs =
     (case rx_match ic (a # k) pc i xs cs of
        Some r \<Rightarrow> Some r
      | None \<Rightarrow> rx_match ic (b # k) pc i xs cs)"
| "rx_match ic (Opt a # k) pc i xs cs =
     (case rx_match ic (a # k) pc i xs cs of
        Some r \<Rightarrow> Some r
      | None \<Rightarrow> rx_match ic k pc i xs cs)"
| "rx_match ic (Grp n a # k) pc i xs cs = rx_match ic (a # Close n i # k) pc i xs cs"
| "rx_match ic (Close n start # k) pc i xs cs = rx_match ic k pc i xs ((n, start, i) # cs)"
| "rx_match ic (WordB # k) pc i xs cs =
     (if word_before pc \<noteq> word_after xs then rx_match ic k pc i xs cs else None)"
| "rx_match ic (Bol # k) pc i xs cs = (if i = 0 then rx_match ic k pc i xs cs else None)"
| "rx_match ic (Eol # k) pc i xs cs =
     (if xs = [] \<or> xs = [CHR 0x0A] then rx_match ic k pc i xs cs else None)"
  by pat_completeness auto
termination
  by (relation "measures [\<lambda>(ic, k, pc, i, xs, cs). length xs,
                          \<lambda>(ic, k, pc, i, xs, cs). sum_list (map weight k)]") auto

text \<open>A match object: start, end and captures.\<close>

type_synonym rmatch = "nat \<times> nat \<times> caps"

text \<open>
  \<^verbatim>\<open>re.finditer\<close>: the leftmost match from the current position, then on from its end.
  (After an empty match the scan moves one character on; no pattern of the program
  matches the empty string.)
\<close>

function finditer_from :: "bool \<Rightarrow> rx \<Rightarrow> char option \<Rightarrow> nat \<Rightarrow> string \<Rightarrow> rmatch list" where
  "finditer_from ic r pc i xs =
     (case rx_match ic [r] pc i xs [] of
        Some (e, cs) \<Rightarrow>
          (if i < e \<and> e - i \<le> length xs
           then (i, e, cs) #
                finditer_from ic r (Some (last (take (e - i) xs))) e (drop (e - i) xs)
           else (case xs of [] \<Rightarrow> [(i, e, cs)]
                 | x # xs' \<Rightarrow> (i, e, cs) # finditer_from ic r (Some x) (Suc i) xs'))
      | None \<Rightarrow>
          (case xs of [] \<Rightarrow> [] | x # xs' \<Rightarrow> finditer_from ic r (Some x) (Suc i) xs'))"
  by pat_completeness auto
termination
proof (relation "measure (\<lambda>(ic, r, pc, i, xs). length xs)")
  show "wf (measure (\<lambda>(ic, r, pc, i, xs). length xs))" by simp
next
  fix ic :: bool and r :: rx and pc :: "char option" and i :: nat and xs :: string
    and x2 :: "nat \<times> caps" and e :: nat and cs :: caps
  assume "i < e \<and> e - i \<le> length xs"
  then show "((ic, r, Some (last (take (e - i) xs)), e, drop (e - i) xs), ic, r, pc, i, xs)
               \<in> measure (\<lambda>(ic, r, pc, i, xs). length xs)"
    by (cases xs) auto
qed auto

declare finditer_from.simps [simp del]

definition finditer :: "bool \<Rightarrow> rx \<Rightarrow> string \<Rightarrow> rmatch list" where
  "finditer ic r s = finditer_from ic r None 0 s"

text \<open>\<^verbatim>\<open>re.search\<close>: the first match of the scan.\<close>

definition search :: "bool \<Rightarrow> rx \<Rightarrow> string \<Rightarrow> rmatch option" where
  "search ic r s = (case finditer ic r s of [] \<Rightarrow> None | mt # _ \<Rightarrow> Some mt)"

text \<open>\<^verbatim>\<open>re.match\<close>: a match at the start of the string, as a truth value.\<close>

definition rx_matches :: "bool \<Rightarrow> rx \<Rightarrow> string \<Rightarrow> bool" where
  "rx_matches ic r s = (rx_match ic [r] None 0 s [] \<noteq> None)"

text \<open>\<^verbatim>\<open>match.group(n)\<close>; \<open>None\<close> when the group took no part in the match.\<close>

definition group :: "string \<Rightarrow> rmatch \<Rightarrow> nat \<Rightarrow> string option" where
  "group s mt n = (case map_of (snd (snd mt)) n of None \<Rightarrow> None
                   | Some (a, b) \<Rightarrow> Some (take (b - a) (drop a s)))"

text \<open>A group as \<^verbatim>\<open>re.findall\<close> returns it: the empty string when it took no part.\<close>

definition group_str :: "string \<Rightarrow> rmatch \<Rightarrow> nat \<Rightarrow> string" where
  "group_str s mt n = (case group s mt n of None \<Rightarrow> [] | Some g \<Rightarrow> g)"

text \<open>\<^verbatim>\<open>re.findall\<close> for a pattern with one group, and for one with two.\<close>

definition findall1 :: "bool \<Rightarrow> rx \<Rightarrow> string \<Rightarrow> string list" where
  "findall1 ic r s = map (\<lambda>mt. group_str s mt 1) (finditer ic r s)"

definition findall2 :: "bool \<Rightarrow> rx \<Rightarrow> string \<Rightarrow> (string \<times> string) list" where
  "findall2 ic r s = map (\<lambda>mt. (group_str s mt 1, group_str s mt 2)) (finditer ic r s)"

text \<open>\<^verbatim>\<open>re.sub(pattern, repl, s)\<close> for a constant \<^verbatim>\<open>repl\<close>.\<close>

fun sub_from :: "string \<Rightarrow> nat \<Rightarrow> rmatch list \<Rightarrow> string \<Rightarrow> string" where
  "sub_from repl i [] xs = xs"
| "sub_from repl i ((a, b, cs) # ms) xs =
     take (a - i) xs @ repl @ sub_from repl b ms (drop (b - i) xs)"

definition re_sub :: "bool \<Rightarrow> rx \<Rightarrow> string \<Rightarrow> string \<Rightarrow> string" where
  "re_sub ic r repl s = sub_from repl 0 (finditer ic r s) s"

text \<open>Shorthand for writing the patterns down.\<close>

fun cat :: "rx list \<Rightarrow> rx" where
  "cat [] = Eps"
| "cat [r] = r"
| "cat (r # rs) = Seq r (cat rs)"

definition lit :: "string \<Rightarrow> rx" where
  "lit s = cat (map Chr s)"

definition AZ :: "citem list" where
  "AZ = [CRange CHR ''A'' CHR ''Z'']"


section \<open>Data model\<close>

datatype py_error = ValueError | TypeError

record CourseInfo =
  c_code :: string
  c_prefix :: string
  c_number :: string
  c_title :: string
  c_credits :: int
  c_level :: string
  c_description :: string
  c_prerequisites :: "string list"
  c_corequisites :: "string list"
  c_offered_semesters :: "string list"

record ProgramInfo =
  p_name :: string
  p_code :: string
  p_type :: string
  p_level :: string
  p_total_credits :: int
  p_description :: string
  p_department :: string
  p_requirements :: "string list"

record DepartmentInfo =
  d_name :: string
  d_code :: string
  d_prefix :: string
  d_description :: string
  d_programs :: "string list"
  d_courses :: "string list"

text \<open>The \<^verbatim>\<open>academic_data\<close> dictionary: three dictionaries, each in insertion order.\<close>

record academic_data =
  ad_courses :: "(string \<times> CourseInfo) list"
  ad_programs :: "(string \<times> ProgramInfo) list"
  ad_departments :: "(string \<times> DepartmentInfo) list"

section \<open>Extraction (\<^verbatim>\<open>AcademicGraphBuilder\<close>)\<close>

subsection \<open>\<^verbatim>\<open>_is_valid_course_code\<close>\<close>

definition invalid_prefixes :: "string list" where
  "invalid_prefixes =
     [''FALL'', ''SPRING'', ''SUMMER'', ''WINTER'',
      ''IN'', ''ON'', ''AT'', ''TO'', ''FOR'', ''THE'',
      ''NTIL'', ''CHIN'', ''YEAR'', ''PAGE'',
      ''AND'', ''OR'', ''BUT'', ''NOT'', ''WITH'']"

definition facility_keywords :: "string list" where
  "facility_keywords = [''stadium'', ''center'', ''building'', ''facility'', ''hall'', ''library'']"

definition is_valid_course_code :: "string \<Rightarrow> string \<Rightarrow> string \<Rightarrow> bool" where
  "is_valid_course_code prefix number title =
     (if prefix \<in> set invalid_prefixes then False
      else if (startswith number ''19'' \<or> startswith number ''20'') \<and> length number = 4 then False
      else if length (py_strip title) < 5 \<or> py_isdigit (py_strip title) then False
      else if list_ex (\<lambda>keyword. contains (py_lower title) keyword) facility_keywords then False
      else True)"

subsection \<open>\<^verbatim>\<open>_extract_course_description\<close>\<close>

text \<open>\<^verbatim>\<open>\s+\<close>\<close>

definition spaces_rx :: rx where
  "spaces_rx = Rep 1 None True False [CSpace]"

text \<open>The three \<^verbatim>\<open>end_patterns\<close>:
  \<^verbatim>\<open>\n[A-Z]{2,4}\s+\d{4}\.\<close>, \<^verbatim>\<open>\n[A-Z][A-Z\s]+:\<close> and \<^verbatim>\<open>\n\n\n\<close>.\<close>

definition end_patterns :: "rx list" where
  "end_patterns =
     [cat [Chr CHR 0x0A, Rep 2 (Some 4) True False AZ, spaces_rx,
           Rep 4 (Some 4) True False [CDigit], Chr CHR ''.''],
      cat [Chr CHR 0x0A, Set False AZ,
           Rep 1 None True False [CRange CHR ''A'' CHR ''Z'', CSpace], Chr CHR '':''],
      cat [Chr CHR 0x0A, Chr CHR 0x0A, Chr CHR 0x0A]]"

definition extract_course_description :: "string \<Rightarrow> nat \<Rightarrow> string" where
  "extract_course_description content start_pos =
     (let snippet = take 2000 (drop start_pos content);
          end_pos = fold (\<lambda>pattern end_pos.
                       case search False pattern snippet of
                         None \<Rightarrow> end_pos
                       | Some mt \<Rightarrow> min end_pos (fst mt))
                     end_patterns (length snippet);
          description = py_strip (take end_pos snippet);
          description = re_sub False spaces_rx '' '' description;
          description = re_sub False (lit ''**'') [] description
      in description)"

subsection \<open>\<^verbatim>\<open>_extract_prerequisites\<close>\<close>

text \<open>\<^verbatim>\<open>\b([A-Z]{2,4})\s+(\d{4}[A-Z]?)\b\<close>\<close>

definition code_rx :: rx where
  "code_rx =
     cat [WordB, Grp 1 (Rep 2 (Some 4) True False AZ), spaces_rx,
          Grp 2 (cat [Rep 4 (Some 4) True False [CDigit], Rep 0 (Some 1) True False AZ]), WordB]"

text \<open>\<^verbatim>\<open>([^.]*?)(?:\.|$)\<close>, the tail of the three section patterns.\<close>

definition section_tail :: "rx list" where
  "section_tail = [Grp 1 (Rep 0 None False True [CChar CHR ''.'']), Alt (Chr CHR ''.'') Eol]"

text \<open>\<^verbatim>\<open>Prerequisites?:\<close>, \<^verbatim>\<open>Prereq:\<close> and \<^verbatim>\<open>Required:\<close>, each followed by the tail. They are
  used with \<^verbatim>\<open>re.IGNORECASE | re.DOTALL\<close>; there is no \<^verbatim>\<open>.\<close> in them for \<^verbatim>\<open>DOTALL\<close> to
  change.\<close>

definition prereq_patterns :: "rx list" where
  "prereq_patterns =
     [cat ([lit ''Prerequisite'', Opt (Chr CHR ''s''), Chr CHR '':''] @ section_tail),
      cat ([lit ''Prereq:''] @ section_tail),
      cat ([lit ''Required:''] @ section_tail)]"

text \<open>\<^verbatim>\<open>[A-Z]{2,4}\s+\d{4}[A-Z]?\<close>\<close>

definition bare_code :: rx where
  "bare_code = cat [Rep 2 (Some 4) True False AZ, spaces_rx,
                    Rep 4 (Some 4) True False [CDigit], Rep 0 (Some 1) True False AZ]"

text \<open>The three \<^verbatim>\<open>prereq_context_patterns\<close>:
  \<^verbatim>\<open>(code)\s+\(Grade [A-Z] or higher\)\<close>, \<^verbatim>\<open>(code)\s+or higher\<close> and
  \<^verbatim>\<open>completion of\s+(code)\<close>.\<close>

definition prereq_context_patterns :: "rx list" where
  "prereq_context_patterns =
     [cat [Grp 1 bare_code, spaces_rx, lit ''(Grade '', Set False AZ, lit '' or higher)''],
      cat [Grp 1 bare_code, spaces_rx, lit ''or higher''],
      cat [lit ''completion of'', spaces_rx, Grp 1 bare_code]]"

text \<open>\<^verbatim>\<open>^[A-Z]{2,4}\s+\d{4}[A-Z]?$\<close>\<close>

definition strict_code_rx :: rx where
  "strict_code_rx = cat [Bol, bare_code, Eol]"

text \<open>\<^verbatim>\<open>if x not in xs: xs.append(x)\<close>\<close>

definition add_unique :: "'a \<Rightarrow> 'a list \<Rightarrow> 'a list" where
  "add_unique x xs = (if x \<in> set xs then xs else xs @ [x])"

text \<open>\<^verbatim>\<open>re.sub(r'\s+', ' ', s.strip().upper())\<close>\<close>

definition normalize_code :: "string \<Rightarrow> string" where
  "normalize_code s = re_sub False spaces_rx '' '' (py_upper (py_strip s))"

definition extract_prerequisites :: "string \<Rightarrow> string list" where
  "extract_prerequisites description =
     (let all_course_codes = findall2 True code_rx description;
          all_courses = map (\<lambda>(prefix, number). py_upper prefix @ '' '' @ py_upper number)
                          all_course_codes;
          prereq_sections = concat (map (\<lambda>pattern. findall1 True pattern description)
                                      prereq_patterns);
          prerequisites =
            fold (\<lambda>section acc.
                    fold (\<lambda>(prefix, number). add_unique (py_upper prefix @ '' '' @ py_upper number))
                      (findall2 True code_rx section) acc)
              prereq_sections [];
          prerequisites =
            (if prerequisites = [] \<and> all_courses \<noteq> []
             then fold (\<lambda>pattern acc.
                          fold (\<lambda>mt. add_unique (normalize_code mt))
                            (findall1 True pattern description) acc)
                    prereq_context_patterns prerequisites
             else prerequisites);
          cleaned_prereqs =
            fold (\<lambda>prereq acc.
                    let cleaned = normalize_code prereq
                    in if rx_matches False strict_code_rx cleaned \<and> cleaned \<notin> set acc
                       then acc @ [cleaned] else acc)
              prerequisites []
      in cleaned_prereqs)"

subsection \<open>\<^verbatim>\<open>_extract_courses_from_content\<close>\<close>

text \<open>\<^verbatim>\<open>\b([A-Z]{2,4})\s+(\d{4})\.\s+([^.\n]+)\.\s*(?:(\d+)\s*(?:Hours?|Credits?))?\<close>\<close>

definition course_pattern :: rx where
  "course_pattern =
     cat [WordB, Grp 1 (Rep 2 (Some 4) True False AZ), spaces_rx,
          Grp 2 (Rep 4 (Some 4) True False [CDigit]), Chr CHR ''.'', spaces_rx,
          Grp 3 (Rep 1 None True True [CChar CHR ''.'', CChar CHR 0x0A]), Chr CHR ''.'',
          Rep 0 None True False [CSpace],
          Opt (cat [Grp 4 (Rep 1 None True False [CDigit]), Rep 0 None True False [CSpace],
                    Alt (cat [lit ''Hour'', Opt (Chr CHR ''s'')])
                        (cat [lit ''Credit'', Opt (Chr CHR ''s'')])])]"

text \<open>The level, from \<^verbatim>\<open>int(number)\<close>: the branches in the order of the source.\<close>

definition course_level :: "int \<Rightarrow> string" where
  "course_level n =
     (if n \<ge> 3000 then ''upper_division''
      else if n \<ge> 5000 then ''graduate''
      else ''lower_division'')"

text \<open>The body of the loop over the matches: \<open>Inr None\<close> is \<^verbatim>\<open>continue\<close>, \<open>Inl\<close> an
  exception that leaves the function.\<close>

definition course_of_match :: "string \<Rightarrow> rmatch \<Rightarrow> py_error + CourseInfo option" where
  "course_of_match content mt =
     (let prefix = py_upper (group_str content mt 1);
          number = group_str content mt 2;
          title = py_strip (group_str content mt 3);
          credits_str = group content mt 4;
          code = prefix @ '' '' @ number
      in if \<not> is_valid_course_code prefix number title then Inr None
         else
           let credits = (case credits_str of
                            None \<Rightarrow> 3
                          | Some s \<Rightarrow> if s = [] then 3
                                      else (case py_int s of Some n \<Rightarrow> n | None \<Rightarrow> 3))
           in case py_int number of
                None \<Rightarrow> Inl ValueError
              | Some n \<Rightarrow>
                  let level = course_level n;
                      description = extract_course_description content (fst (snd mt));
                      prerequisites = extract_prerequisites description
                  in Inr (Some \<lparr>c_code = code, c_prefix = prefix, c_number = number,
                                c_title = title, c_credits = credits, c_level = level,
                                c_description = description, c_prerequisites = prerequisites,
                                c_corequisites = [], c_offered_semesters = [''Fall'', ''Spring'']\<rparr>))"

fun courses_loop ::
  "string \<Rightarrow> rmatch list \<Rightarrow> (string \<times> CourseInfo) list \<Rightarrow> py_error + (string \<times> CourseInfo) list" where
  "courses_loop content [] courses = Inr courses"
| "courses_loop content (mt # ms) courses =
     (case course_of_match content mt of
        Inl e \<Rightarrow> Inl e
      | Inr None \<Rightarrow> courses_loop content ms courses
      | Inr (Some c) \<Rightarrow> courses_loop content ms (AList.update (c_code c) c courses))"

definition extract_courses_from_content ::
  "string \<Rightarrow> string \<Rightarrow> py_error + (string \<times> CourseInfo) list" where
  "extract_courses_from_content content url =
     courses_loop content (finditer False course_pattern content) []"

subsection \<open>\<^verbatim>\<open>_extract_programs_from_content\<close>\<close>

text \<open>\<^verbatim>\<open>/([^/]+)/?$\<close>\<close>

definition url_tail_rx :: rx where
  "url_tail_rx = cat [Chr CHR ''/'', Grp 1 (Rep 1 None True True [CChar CHR ''/'']),
                      Opt (Chr CHR ''/''), Eol]"

definition extract_department_from_url :: "string \<Rightarrow> string" where
  "extract_department_from_url url =
     (case search False url_tail_rx url of
        Some dept_match \<Rightarrow> py_title (replace_char CHR ''-'' CHR '' '' (group_str url dept_match 1))
      | None \<Rightarrow> ''Unknown Department'')"

text \<open>\<^verbatim>\<open>(Bachelor of [^,\n]+)\<close>, \<^verbatim>\<open>(Master of [^,\n]+)\<close>, \<^verbatim>\<open>([A-Z][^,\n]+ Certificate)\<close> and
  \<^verbatim>\<open>([A-Z][^,\n]+ Minor)\<close>, used with \<^verbatim>\<open>re.IGNORECASE\<close>.\<close>

definition not_comma_nl :: rx where
  "not_comma_nl = Rep 1 None True True [CChar CHR '','', CChar CHR 0x0A]"

definition program_patterns :: "rx list" where
  "program_patterns =
     [Grp 1 (cat [lit ''Bachelor of '', not_comma_nl]),
      Grp 1 (cat [lit ''Master of '', not_comma_nl]),
      Grp 1 (cat [Set False AZ, not_comma_nl, lit '' Certificate'']),
      Grp 1 (cat [Set False AZ, not_comma_nl, lit '' Minor''])]"

text \<open>The \<^verbatim>\<open>if\<close>/\<^verbatim>\<open>elif\<close> chain on the name; \<open>None\<close> is its \<^verbatim>\<open>else: continue\<close>.\<close>

definition program_type_level :: "string \<Rightarrow> (string \<times> string) option" where
  "program_type_level program_name =
     (if contains program_name ''Bachelor'' then Some (''Bachelor'', ''undergraduate'')
      else if contains program_name ''Master'' then Some (''Master'', ''graduate'')
      else if contains program_name ''Certificate'' then Some (''Certificate'', ''undergraduate'')
      else if contains program_name ''Minor'' then Some (''Minor'', ''undergraduate'')
      else None)"

definition program_of_match ::
  "string \<Rightarrow> string \<Rightarrow> rmatch \<Rightarrow> (string \<times> ProgramInfo) list \<Rightarrow> (string \<times> ProgramInfo) list" where
  "program_of_match content url mt programs =
     (let program_name = py_strip (group_str content mt 1)
      in case program_type_level program_name of
           None \<Rightarrow> programs
         | Some (program_type, level) \<Rightarrow>
             let department = extract_department_from_url url
             in AList.update program_name
                  \<lparr>p_name = program_name,
                   p_code = py_upper (replace_char CHR '' '' CHR ''_'' program_name),
                   p_type = program_type, p_level = level, p_total_credits = 120,
                   p_description = program_name @ '' program'',
                   p_department = department, p_requirements = []\<rparr>
                  programs)"

definition extract_programs_from_content :: "string \<Rightarrow> string \<Rightarrow> (string \<times> ProgramInfo) list" where
  "extract_programs_from_content content url =
     fold (\<lambda>pattern programs.
             fold (program_of_match content url) (finditer True pattern content) programs)
       program_patterns []"


section \<open>Planning (\<^verbatim>\<open>GraphEnhancedAcademicPlanner\<close>)\<close>

subsection \<open>\<^verbatim>\<open>get_prerequisite_chain\<close>\<close>

record PrerequisitePath =
  pp_target_course :: string
  pp_path :: "string list"
  pp_total_credits :: int
  pp_semesters_needed :: int

text \<open>
  A record of the path query
  \<^verbatim>\<open>MATCH path = (start:Course)-[:PREREQUISITE_FOR*1..10]->(target:Course {code: $course_code})\<close>:
  the codes and the credits of the nodes of one path, and \<^verbatim>\<open>length(path)\<close>, its number of
  relationships. A node without credits gives \<^verbatim>\<open>None\<close>.
\<close>

record path_record =
  course_path :: "string list"
  credit_path :: "int option list"
  depth :: int

text \<open>\<^verbatim>\<open>sum(xs)\<close>; adding \<^verbatim>\<open>None\<close> to a number raises \<^verbatim>\<open>TypeError\<close>.\<close>

definition py_sum :: "int option list \<Rightarrow> py_error + int" where
  "py_sum xs = (case those xs of None \<Rightarrow> Inl TypeError | Some ys \<Rightarrow> Inr (sum_list ys))"

definition path_of_record :: "string \<Rightarrow> path_record \<Rightarrow> py_error + PrerequisitePath" where
  "path_of_record course_code record =
     (case py_sum (credit_path record) of
        Inl e \<Rightarrow> Inl e
      | Inr total_credits \<Rightarrow>
          let semesters_needed = max 1 ((depth record + 1) div 2)
          in Inr \<lparr>pp_target_course = course_code, pp_path = course_path record,
                  pp_total_credits = total_credits, pp_semesters_needed = semesters_needed\<rparr>)"

fun chain_loop ::
  "string \<Rightarrow> path_record list \<Rightarrow> PrerequisitePath list \<Rightarrow> py_error + PrerequisitePath list" where
  "chain_loop course_code [] paths = Inr paths"
| "chain_loop course_code (record # records) paths =
     (case path_of_record course_code record of
        Inl e \<Rightarrow> Inl e
      | Inr p \<Rightarrow> chain_loop course_code records (paths @ [p]))"

text \<open>\<open>result\<close> is what the store returns for the query with \<^verbatim>\<open>course_code\<close> and
  \<^verbatim>\<open>max_depth\<close>.\<close>

definition get_prerequisite_chain ::
  "string \<Rightarrow> path_record list \<Rightarrow> py_error + PrerequisitePath list" where
  "get_prerequisite_chain course_code result = chain_loop course_code result []"

section \<open>The graph store\<close>

text \<open>
  The Neo4j graph, as far as the program reads and writes it. \<^verbatim>\<open>_create_schema\<close> puts a
  uniqueness constraint on the natural key of every label (\<^verbatim>\<open>name\<close> for University and
  Program, \<^verbatim>\<open>prefix\<close> for Department, \<^verbatim>\<open>code\<close> for Course), so the nodes of a label are
  a finite map from the key to the other properties. A property that a node does not
  have is \<open>None\<close> (Cypher's \<^verbatim>\<open>null\<close>). The program creates relationships with
  \<^verbatim>\<open>MERGE\<close> only, so there is at most one relationship of a type between two nodes:
  the relationships are a finite set.
\<close>

record university_node =
  un_location :: "string option"
  un_website :: "string option"
  un_created_at :: "nat option"

record department_node =
  dn_name :: "string option"
  dn_code :: "string option"
  dn_description :: "string option"
  dn_created_at :: "nat option"

text \<open>\<open>cn_department\<close> is the property \<^verbatim>\<open>course.department\<close> that the planner reads; the
  builder never sets it.\<close>

record course_node =
  cn_prefix :: "string option"
  cn_number :: "string option"
  cn_title :: "string option"
  cn_credits :: "int option"
  cn_level :: "string option"
  cn_description :: "string option"
  cn_prerequisites_text :: "string option"
  cn_offered_semesters :: "string list option"
  cn_created_at :: "nat option"
  cn_department :: "string option"

record program_node =
  pn_code :: "string option"
  pn_type :: "string option"
  pn_level :: "string option"
  pn_total_credits :: "int option"
  pn_description :: "string option"
  pn_created_at :: "nat option"

datatype node_ref = University string | Department string | Course string | Program string

datatype rel_type =
    OFFERS_COURSE | BELONGS_TO_DISCIPLINE | PREREQUISITE_FOR
  | OFFERS_PROGRAM | BELONGS_TO_DEPARTMENT | HAS_DEPARTMENT

type_synonym relationship = "node_ref \<times> rel_type \<times> node_ref"

record graph =
  universities :: "(string, university_node) fmap"
  department_nodes :: "(string, department_node) fmap"
  course_nodes :: "(string, course_node) fmap"
  program_nodes :: "(string, program_node) fmap"
  relationships :: "relationship fset"

definition empty_graph :: graph where
  "empty_graph = \<lparr>universities = fmempty, department_nodes = fmempty, course_nodes = fmempty,
                   program_nodes = fmempty, relationships = {||}\<rparr>"

text \<open>A node as \<^verbatim>\<open>MERGE\<close> creates it: the key and nothing else.\<close>

definition new_university :: university_node where
  "new_university = \<lparr>un_location = None, un_website = None, un_created_at = None\<rparr>"

definition new_department :: department_node where
  "new_department = \<lparr>dn_name = None, dn_code = None, dn_description = None, dn_created_at = None\<rparr>"

definition new_course :: course_node where
  "new_course = \<lparr>cn_prefix = None, cn_number = None, cn_title = None, cn_credits = None,
                  cn_level = None, cn_description = None, cn_prerequisites_text = None,
                  cn_offered_semesters = None, cn_created_at = None, cn_department = None\<rparr>"

definition new_program :: program_node where
  "new_program = \<lparr>pn_code = None, pn_type = None, pn_level = None, pn_total_credits = None,
                   pn_description = None, pn_created_at = None\<rparr>"

text \<open>\<^verbatim>\<open>MERGE (n:Label {key: $key}) SET n.p = ..., ...\<close>: the node with the key is taken, or
  created when there is none, and the \<^verbatim>\<open>SET\<close> clause is applied to it.\<close>

definition merge_node :: "'k \<Rightarrow> 'n \<Rightarrow> ('n \<Rightarrow> 'n) \<Rightarrow> ('k, 'n) fmap \<Rightarrow> ('k, 'n) fmap" where
  "merge_node key new set_clause nodes =
     fmupd key (set_clause (case fmlookup nodes key of None \<Rightarrow> new | Some n \<Rightarrow> n)) nodes"

text \<open>\<^verbatim>\<open>MERGE (a)-[:TYPE]->(b)\<close> for two nodes that were matched.\<close>

definition merge_relationship :: "relationship \<Rightarrow> graph \<Rightarrow> graph" where
  "merge_relationship r g = g\<lparr>relationships := finsert r (relationships g)\<rparr>"

section \<open>Population of the graph (\<^verbatim>\<open>AcademicGraphBuilder\<close>)\<close>

subsection \<open>\<^verbatim>\<open>_populate_neo4j\<close>\<close>

text \<open>Each statement is a \<^verbatim>\<open>MERGE\<close> on the key with a \<^verbatim>\<open>SET\<close> clause, and each sets
  \<^verbatim>\<open>created_at = datetime()\<close>; \<open>now\<close> is the time the store reads from its clock when it
  runs the statement.\<close>

definition set_university :: "nat \<Rightarrow> university_node \<Rightarrow> university_node" where
  "set_university now u =
     u\<lparr>un_location := Some ''St. George, Utah'',
       un_website := Some ''https://utahtech.edu'',
       un_created_at := Some now\<rparr>"

definition merge_university :: "nat \<Rightarrow> graph \<Rightarrow> graph" where
  "merge_university now g =
     g\<lparr>universities :=
         merge_node ''Utah Tech University'' new_university (set_university now)
           (universities g)\<rparr>"

definition set_department :: "nat \<Rightarrow> DepartmentInfo \<Rightarrow> department_node \<Rightarrow> department_node" where
  "set_department now dept_info d =
     d\<lparr>dn_name := Some (d_name dept_info),
       dn_code := Some (d_code dept_info),
       dn_description := Some (d_description dept_info),
       dn_created_at := Some now\<rparr>"

definition merge_department :: "nat \<Rightarrow> DepartmentInfo \<Rightarrow> graph \<Rightarrow> graph" where
  "merge_department now dept_info g =
     g\<lparr>department_nodes :=
         merge_node (d_prefix dept_info) new_department (set_department now dept_info)
           (department_nodes g)\<rparr>"

definition set_course :: "nat \<Rightarrow> CourseInfo \<Rightarrow> course_node \<Rightarrow> course_node" where
  "set_course now course_info c =
     c\<lparr>cn_prefix := Some (c_prefix course_info),
       cn_number := Some (c_number course_info),
       cn_title := Some (c_title course_info),
       cn_credits := Some (c_credits course_info),
       cn_level := Some (c_level course_info),
       cn_description := Some (c_description course_info),
       cn_prerequisites_text := Some (join '', '' (c_prerequisites course_info)),
       cn_offered_semesters := Some (c_offered_semesters course_info),
       cn_created_at := Some now\<rparr>"

definition merge_course :: "nat \<Rightarrow> CourseInfo \<Rightarrow> graph \<Rightarrow> graph" where
  "merge_course now course_info g =
     g\<lparr>course_nodes :=
         merge_node (c_code course_info) new_course (set_course now course_info)
           (course_nodes g)\<rparr>"

definition set_program :: "nat \<Rightarrow> ProgramInfo \<Rightarrow> program_node \<Rightarrow> program_node" where
  "set_program now program_info p =
     p\<lparr>pn_code := Some (p_code program_info),
       pn_type := Some (p_type program_info),
       pn_level := Some (p_level program_info),
       pn_total_credits := Some (p_total_credits program_info),
       pn_description := Some (p_description program_info),
       pn_created_at := Some now\<rparr>"

definition merge_program :: "nat \<Rightarrow> ProgramInfo \<Rightarrow> graph \<Rightarrow> graph" where
  "merge_program now program_info g =
     g\<lparr>program_nodes :=
         merge_node (p_name program_info) new_program (set_program now program_info)
           (program_nodes g)\<rparr>"

text \<open>
  \<open>has_driver\<close> says whether \<^verbatim>\<open>self.neo4j_driver\<close> is set. \<open>clock i\<close> is the time of the
  \<open>i\<close>-th statement of the run: the university first, then the departments, the
  courses and the programs, each dictionary in its order.
\<close>

definition populate_neo4j :: "bool \<Rightarrow> (nat \<Rightarrow> nat) \<Rightarrow> academic_data \<Rightarrow> graph \<Rightarrow> graph" where
  "populate_neo4j has_driver clock academic_data g =
     (if \<not> has_driver then g
      else
        let ds = map snd (ad_departments academic_data);
            cs = map snd (ad_courses academic_data);
            ps = map snd (ad_programs academic_data);
            g = merge_university (clock 0) g;
            g = fold (\<lambda>(i, dept_info). merge_department (clock i) dept_info)
                  (enumerate 1 ds) g;
            g = fold (\<lambda>(i, course_info). merge_course (clock i) course_info)
                  (enumerate (1 + length ds) cs) g;
            g = fold (\<lambda>(i, program_info). merge_program (clock i) program_info)
                  (enumerate (1 + length ds + length cs) ps) g
        in g)"

subsection \<open>\<^verbatim>\<open>_extract_department_prefix\<close>\<close>

definition dept_mappings :: "(string \<times> string) list" where
  "dept_mappings =
     [(''art'', ''ART''), (''computer science'', ''CS''), (''nursing'', ''NURS''),
      (''business'', ''BUS''), (''english'', ''ENGL''), (''mathematics'', ''MATH''),
      (''biology'', ''BIOL''), (''chemistry'', ''CHEM''), (''physics'', ''PHYS''),
      (''psychology'', ''PSY''), (''history'', ''HIST''), (''geography'', ''GEOG'')]"

definition extract_department_prefix :: "string \<Rightarrow> string" where
  "extract_department_prefix department_name =
     (let dept_lower = py_strip (py_lower department_name)
      in case find (\<lambda>(key, prefix). contains dept_lower key) dept_mappings of
           Some (key, prefix) \<Rightarrow> prefix
         | None \<Rightarrow>
             (case first_word dept_lower of
                Some w \<Rightarrow> py_upper (take 4 w)
              | None \<Rightarrow> []))"

subsection \<open>\<^verbatim>\<open>_create_relationships\<close>\<close>

text \<open>Each statement first matches its two nodes; when one of them is missing it matches
  nothing and writes nothing.\<close>

definition link_course_department :: "CourseInfo \<Rightarrow> graph \<Rightarrow> graph" where
  "link_course_department course_info g =
     (if c_code course_info |\<in>| fmdom (course_nodes g)
         \<and> c_prefix course_info |\<in>| fmdom (department_nodes g)
      then merge_relationship
             (Course (c_code course_info), BELONGS_TO_DISCIPLINE, Department (c_prefix course_info))
             (merge_relationship
               (Department (c_prefix course_info), OFFERS_COURSE, Course (c_code course_info)) g)
      else g)"

definition link_prerequisite :: "string \<Rightarrow> string \<Rightarrow> graph \<Rightarrow> graph" where
  "link_prerequisite course_code prereq_code g =
     (if prereq_code |\<in>| fmdom (course_nodes g) \<and> course_code |\<in>| fmdom (course_nodes g)
      then merge_relationship (Course prereq_code, PREREQUISITE_FOR, Course course_code) g
      else g)"

definition link_prerequisites :: "CourseInfo \<Rightarrow> graph \<Rightarrow> graph" where
  "link_prerequisites course_info g =
     fold (link_prerequisite (c_code course_info)) (c_prerequisites course_info) g"

definition link_program_department :: "ProgramInfo \<Rightarrow> graph \<Rightarrow> graph" where
  "link_program_department program_info g =
     (if p_department program_info = [] then g
      else
        let dept_prefix = extract_department_prefix (p_department program_info)
        in if dept_prefix = [] then g
           else if p_name program_info |\<in>| fmdom (program_nodes g)
                   \<and> dept_prefix |\<in>| fmdom (department_nodes g)
           then merge_relationship
                  (Program (p_name program_info), BELONGS_TO_DEPARTMENT, Department dept_prefix)
                  (merge_relationship
                    (Department dept_prefix, OFFERS_PROGRAM, Program (p_name program_info)) g)
           else g)"

text \<open>\<^verbatim>\<open>MATCH (u:University), (d:Department) WHERE NOT EXISTS(...) MERGE (u)-[:HAS_DEPARTMENT]->(d)\<close>:
  every university of the graph is linked to every department of the graph.\<close>

definition link_university_departments :: "graph \<Rightarrow> graph" where
  "link_university_departments g =
     g\<lparr>relationships :=
         relationships g |\<union>|
         ffUnion ((\<lambda>u. (\<lambda>d. (University u, HAS_DEPARTMENT, Department d)) |`|
                         fmdom (department_nodes g)) |`|
                  fmdom (universities g))\<rparr>"

text \<open>The function also counts the statements it ran and returns the counts; they are
  not part of the graph and are left out.\<close>

definition create_relationships :: "bool \<Rightarrow> academic_data \<Rightarrow> graph \<Rightarrow> graph" where
  "create_relationships has_driver academic_data g =
     (if \<not> has_driver then g
      else
        let cs = map snd (ad_courses academic_data);
            ps = map snd (ad_programs academic_data);
            g = fold link_course_department cs g;
            g = fold link_prerequisites cs g;
            g = fold link_program_department ps g;
            g = link_university_departments g
        in g)"

text \<open>The populate step of \<^verbatim>\<open>build_academic_graph\<close>, as far as the graph goes:
  \<^verbatim>\<open>_populate_neo4j\<close>, then \<^verbatim>\<open>_create_relationships\<close>.\<close>

definition populate :: "bool \<Rightarrow> (nat \<Rightarrow> nat) \<Rightarrow> academic_data \<Rightarrow> graph \<Rightarrow> graph" where
  "populate has_driver clock academic_data g =
     create_relationships has_driver academic_data (populate_neo4j has_driver clock academic_data g)"

section \<open>The relational store (\<^verbatim>\<open>_populate_supabase_tables\<close>)\<close>

text \<open>
  The three academic tables of the Supabase store, each a list of rows with the columns
  the program writes. \<^verbatim>\<open>delete().neq(column, '')\<close> removes the rows whose column is not
  the empty string. The program gives no key to the rows it upserts, so every upsert
  adds its rows.
\<close>

record department_row =
  dr_department_name :: string
  dr_prefix :: string
  dr_description :: string
  dr_source_id :: string

record course_row =
  cr_course_code :: string
  cr_title :: string
  cr_credits :: int
  cr_level :: string
  cr_description :: "string option"
  cr_prerequisites :: "string option"
  cr_prefix :: string
  cr_course_number :: string
  cr_source_id :: string

record program_row =
  pr_program_name :: string
  pr_program_type :: string
  pr_level :: string
  pr_description :: "string option"
  pr_source_id :: string

record supabase =
  academic_departments :: "department_row list"
  academic_courses :: "course_row list"
  academic_programs :: "program_row list"

text \<open>\<^verbatim>\<open>s[:n] if s else None\<close>\<close>

definition truncate_or_none :: "nat \<Rightarrow> string \<Rightarrow> string option" where
  "truncate_or_none n s = (if s = [] then None else Some (take n s))"

text \<open>The loop over the departments: a prefix that was seen is skipped.\<close>

fun department_records ::
  "DepartmentInfo list \<Rightarrow> string set \<Rightarrow> department_row list \<Rightarrow> department_row list" where
  "department_records [] seen_prefixes dept_records = dept_records"
| "department_records (dept_info # rest) seen_prefixes dept_records =
     (if d_prefix dept_info \<in> seen_prefixes
      then department_records rest seen_prefixes dept_records
      else department_records rest (insert (d_prefix dept_info) seen_prefixes)
             (dept_records @
              [\<lparr>dr_department_name = d_name dept_info, dr_prefix = d_prefix dept_info,
                dr_description = d_description dept_info,
                dr_source_id = ''catalog.utahtech.edu''\<rparr>]))"

text \<open>The loop over the courses: a code that was seen is skipped.\<close>

fun course_records ::
  "CourseInfo list \<Rightarrow> string set \<Rightarrow> course_row list \<Rightarrow> course_row list" where
  "course_records [] seen_courses course_recs = course_recs"
| "course_records (course_info # rest) seen_courses course_recs =
     (if c_code course_info \<in> seen_courses
      then course_records rest seen_courses course_recs
      else course_records rest (insert (c_code course_info) seen_courses)
             (course_recs @
              [\<lparr>cr_course_code = c_code course_info, cr_title = c_title course_info,
                cr_credits = c_credits course_info, cr_level = c_level course_info,
                cr_description = truncate_or_none 1000 (c_description course_info),
                cr_prerequisites = (if c_prerequisites course_info = [] then None
                                    else Some (join '', '' (c_prerequisites course_info))),
                cr_prefix = c_prefix course_info, cr_course_number = c_number course_info,
                cr_source_id = ''catalog.utahtech.edu''\<rparr>]))"

text \<open>The loop over the programs: the name is cut to 500 characters, and a cut name that
  was seen is skipped.\<close>

fun program_records ::
  "ProgramInfo list \<Rightarrow> string set \<Rightarrow> program_row list \<Rightarrow> program_row list" where
  "program_records [] seen_programs program_recs = program_recs"
| "program_records (program_info # rest) seen_programs program_recs =
     (let truncated_name = take 500 (p_name program_info)
      in if truncated_name \<in> seen_programs
         then program_records rest seen_programs program_recs
         else program_records rest (insert truncated_name seen_programs)
                (program_recs @
                 [\<lparr>pr_program_name = truncated_name, pr_program_type = p_type program_info,
                   pr_level = p_level program_info,
                   pr_description = truncate_or_none 1000 (p_description program_info),
                   pr_source_id = ''catalog.utahtech.edu''\<rparr>]))"

text \<open>\<^verbatim>\<open>[records[i:i + 100] for i in range(0, len(records), 100)]\<close>\<close>

function batches :: "'a list \<Rightarrow> 'a list list" where
  "batches records = (if records = [] then [] else take 100 records # batches (drop 100 records))"
  by pat_completeness auto
termination
  by (relation "measure length") auto

declare batches.simps [simp del]

definition populate_supabase_tables :: "academic_data \<Rightarrow> supabase \<Rightarrow> supabase" where
  "populate_supabase_tables academic_data db =
     (let db = db\<lparr>academic_courses := filter (\<lambda>r. \<not> cr_course_code r \<noteq> []) (academic_courses db)\<rparr>;
          db = db\<lparr>academic_programs := filter (\<lambda>r. \<not> pr_program_name r \<noteq> []) (academic_programs db)\<rparr>;
          db = db\<lparr>academic_departments :=
                    filter (\<lambda>r. \<not> dr_department_name r \<noteq> []) (academic_departments db)\<rparr>;
          db = (if ad_departments academic_data = [] then db
                else let dept_records = department_records (map snd (ad_departments academic_data)) {} []
                     in if dept_records = [] then db
                        else db\<lparr>academic_departments := academic_departments db @ dept_records\<rparr>);
          db = (if ad_courses academic_data = [] then db
                else let course_recs = course_records (map snd (ad_courses academic_data)) {} []
                     in fold (\<lambda>batch db. db\<lparr>academic_courses := academic_courses db @ batch\<rparr>)
                          (batches course_recs) db);
          db = (if ad_programs academic_data = [] then db
                else let program_recs = program_records (map snd (ad_programs academic_data)) {} []
                     in fold (\<lambda>batch db. db\<lparr>academic_programs := academic_programs db @ batch\<rparr>)
                          (batches program_recs) db)
      in db)"

subsection \<open>The course queries\<close>

text \<open>
  \<^verbatim>\<open>MATCH (course:Course {code: $course_code})
  OPTIONAL MATCH (prereq:Course)-[:PREREQUISITE_FOR]->(course)
  RETURN course.code, course.title, course.credits, course.level, course.department,
         collect(prereq.code)\<close>
  and \<^verbatim>\<open>result.single()\<close>: one record when the course is in the graph, \<open>None\<close> when it is
  not. Cypher leaves the order of \<^verbatim>\<open>collect\<close> open; the model lists the codes in
  ascending order.
\<close>

record course_record =
  r_code :: string
  r_title :: "string option"
  r_credits :: "int option"
  r_level :: "string option"
  r_department :: "string option"
  r_prerequisites :: "string list"

definition prerequisite_codes :: "graph \<Rightarrow> string \<Rightarrow> string list" where
  "prerequisite_codes g course_code =
     sorted_list_of_fset
       (ffilter (\<lambda>prereq. (Course prereq, PREREQUISITE_FOR, Course course_code) |\<in>| relationships g)
          (fmdom (course_nodes g)))"

definition course_query :: "graph \<Rightarrow> string \<Rightarrow> course_record option" where
  "course_query g course_code =
     (case fmlookup (course_nodes g) course_code of
        None \<Rightarrow> None
      | Some n \<Rightarrow>
          Some \<lparr>r_code = course_code, r_title = cn_title n, r_credits = cn_credits n,
                r_level = cn_level n, r_department = cn_department n,
                r_prerequisites = prerequisite_codes g course_code\<rparr>)"

text \<open>\<^verbatim>\<open>record["credits"] or 3\<close>: 3 for \<^verbatim>\<open>None\<close> and for 0.\<close>

definition credits_or_3 :: "int option \<Rightarrow> int" where
  "credits_or_3 credits = (case credits of None \<Rightarrow> 3 | Some n \<Rightarrow> if n = 0 then 3 else n)"

text \<open>\<^verbatim>\<open>[p for p in record["prerequisites"] if p]\<close>: the empty code is dropped.\<close>

definition truthy_codes :: "string list \<Rightarrow> string list" where
  "truthy_codes ps = filter (\<lambda>p. p \<noteq> []) ps"

text \<open>An entry of the \<^verbatim>\<open>course_info\<close> dictionaries: \<open>course_summary\<close> is the entry of
  \<^verbatim>\<open>analyze_degree_progress\<close>, \<open>course_details\<close> the one of
  \<^verbatim>\<open>validate_course_sequence\<close>, with the prerequisites.\<close>

record course_summary =
  cs_code :: string
  cs_title :: "string option"
  cs_credits :: int
  cs_level :: "string option"
  cs_department :: "string option"

record course_details = course_summary +
  cs_prerequisites :: "string list"

definition details_of :: "course_record \<Rightarrow> course_details" where
  "details_of record =
     \<lparr>cs_code = r_code record, cs_title = r_title record,
      cs_credits = credits_or_3 (r_credits record), cs_level = r_level record,
      cs_department = r_department record,
      cs_prerequisites = truthy_codes (r_prerequisites record)\<rparr>"

definition summary_of :: "course_record \<Rightarrow> course_summary" where
  "summary_of record =
     \<lparr>cs_code = r_code record, cs_title = r_title record,
      cs_credits = credits_or_3 (r_credits record), cs_level = r_level record,
      cs_department = r_department record\<rparr>"

subsection \<open>\<^verbatim>\<open>validate_course_sequence\<close>\<close>

record violation =
  v_course :: string
  v_missing_prerequisites :: "string list"
  v_message :: string

record statistics =
  st_total_courses :: nat
  st_total_credits :: int
  st_upper_division_credits :: int
  st_disciplines :: "string option list"
  st_discipline_count :: nat

record validation =
  val_valid :: bool
  val_violations :: "violation list"
  val_statistics :: statistics
  val_course_details :: "(string \<times> course_details) list"

text \<open>The first loop: the dictionary \<^verbatim>\<open>course_info\<close> of the courses that are in the graph.\<close>

definition collect_course_info :: "graph \<Rightarrow> string list \<Rightarrow> (string \<times> course_details) list" where
  "collect_course_info g course_codes =
     fold (\<lambda>course_code course_info.
             case course_query g course_code of
               None \<Rightarrow> course_info
             | Some record \<Rightarrow> AList.update course_code (details_of record) course_info)
       course_codes []"

text \<open>The second loop: the prerequisites of each course against the courses before it.\<close>

fun check_prerequisites ::
  "(string \<times> course_details) list \<Rightarrow> string list \<Rightarrow> string set \<Rightarrow> violation list
   \<Rightarrow> violation list" where
  "check_prerequisites course_info [] completed_courses violations = violations"
| "check_prerequisites course_info (course_code # rest) completed_courses violations =
     (case map_of course_info course_code of
        None \<Rightarrow> check_prerequisites course_info rest completed_courses violations
      | Some info \<Rightarrow>
          let prerequisites = cs_prerequisites info;
              missing_prereqs = filter (\<lambda>p. p \<notin> completed_courses) prerequisites;
              violations =
                (if missing_prereqs \<noteq> []
                 then violations @
                      [\<lparr>v_course = course_code, v_missing_prerequisites = missing_prereqs,
                        v_message = course_code @ '' requires '' @ join '', '' missing_prereqs
                                    @ '' which are not completed yet''\<rparr>]
                 else violations)
          in check_prerequisites course_info rest (insert course_code completed_courses)
               violations)"

text \<open>The credits of the entries whose level is the string \<^verbatim>\<open>upper-division\<close>.\<close>

definition upper_division_sum :: "'a course_summary_scheme list \<Rightarrow> int" where
  "upper_division_sum infos =
     sum_list (map cs_credits (filter (\<lambda>info. cs_level info = Some ''upper-division'') infos))"

definition validate_course_sequence :: "graph \<Rightarrow> string list \<Rightarrow> validation" where
  "validate_course_sequence g course_codes =
     (let course_info = collect_course_info g course_codes;
          violations = check_prerequisites course_info course_codes {} [];
          infos = map snd course_info;
          total_credits = sum_list (map cs_credits infos);
          upper_division_credits = upper_division_sum infos;
          disciplines = remdups (map cs_department infos)
      in \<lparr>val_valid = (length violations = 0),
          val_violations = violations,
          val_statistics =
            \<lparr>st_total_courses = length course_info, st_total_credits = total_credits,
             st_upper_division_credits = upper_division_credits,
             st_disciplines = disciplines, st_discipline_count = length disciplines\<rparr>,
          val_course_details = course_info\<rparr>)"

subsection \<open>\<^verbatim>\<open>_topological_sort\<close>\<close>

text \<open>\<^verbatim>\<open>prerequisite_graph.get(course, [])\<close>\<close>

definition prereqs_of :: "(string \<times> string list) list \<Rightarrow> string \<Rightarrow> string list" where
  "prereqs_of prerequisite_graph course =
     (case map_of prerequisite_graph course of None \<Rightarrow> [] | Some ps \<Rightarrow> ps)"

text \<open>\<^verbatim>\<open>in_degree[course]\<close>. The dictionary has every course of \<^verbatim>\<open>courses\<close> as a key from
  its creation on and loses none, and it is read at these courses only, so the read
  never raises \<^verbatim>\<open>KeyError\<close>; the value 0 for a missing key is there to make the function
  total.\<close>

definition degree_of :: "(string \<times> int) list \<Rightarrow> string \<Rightarrow> int" where
  "degree_of in_degree course = (case map_of in_degree course of None \<Rightarrow> 0 | Some n \<Rightarrow> n)"

text \<open>\<^verbatim>\<open>{course: 0 for course in courses}\<close>, and the loop that counts, for every course, its
  prerequisites among the courses.\<close>

definition initial_in_degree :: "string list \<Rightarrow> (string \<times> int) list" where
  "initial_in_degree courses = fold (\<lambda>course in_degree. AList.update course 0 in_degree) courses []"

definition count_in_degree ::
  "string list \<Rightarrow> (string \<times> string list) list \<Rightarrow> (string \<times> int) list \<Rightarrow> (string \<times> int) list" where
  "count_in_degree courses prerequisite_graph in_degree =
     fold (\<lambda>course in_degree.
             fold (\<lambda>prereq in_degree.
                     if prereq \<in> fst ` set in_degree
                     then AList.update course (degree_of in_degree course + 1) in_degree
                     else in_degree)
               (prereqs_of prerequisite_graph course) in_degree)
       courses in_degree"

text \<open>The \<^verbatim>\<open>for\<close> loop in the body of the \<^verbatim>\<open>while\<close> loop: the in-degree of every course
  that has \<^verbatim>\<open>current\<close> as a prerequisite goes down by one, and the course joins the queue
  when it reaches 0.\<close>

definition release_step ::
  "string \<Rightarrow> (string \<times> string list) list \<Rightarrow> string
   \<Rightarrow> (string \<times> int) list \<times> string list \<Rightarrow> (string \<times> int) list \<times> string list" where
  "release_step current prerequisite_graph course state =
     (case state of (in_degree, queue) \<Rightarrow>
        if current \<in> set (prereqs_of prerequisite_graph course)
        then let in_degree = AList.update course (degree_of in_degree course - 1) in_degree
             in if degree_of in_degree course = 0 then (in_degree, queue @ [course])
                else (in_degree, queue)
        else (in_degree, queue))"

definition release ::
  "string \<Rightarrow> string list \<Rightarrow> (string \<times> string list) list
   \<Rightarrow> (string \<times> int) list \<times> string list \<Rightarrow> (string \<times> int) list \<times> string list" where
  "release current courses prerequisite_graph state =
     fold (release_step current prerequisite_graph) courses state"

text \<open>The \<^verbatim>\<open>while queue\<close> loop ends: every round takes one course from the queue, and a
  course joins the queue only when its in-degree, which only goes down, reaches 0. The
  measure is the length of the queue plus the number of courses whose in-degree is
  still positive.\<close>

definition waiting :: "(string \<times> int) list \<Rightarrow> string set" where
  "waiting in_degree = {course. 0 < degree_of in_degree course}"

lemma degree_of_update:
  "degree_of (AList.update k v d) k' = (if k' = k then v else degree_of d k')"
  by (simp add: degree_of_def update_conv')

lemma finite_waiting: "finite (waiting d)"
proof -
  have "waiting d \<subseteq> dom (map_of d)"
    by (auto simp: waiting_def degree_of_def split: option.splits)
  then show ?thesis by (rule finite_subset) (rule finite_dom_map_of)
qed

lemma release_step_measure:
  assumes "release_step current pg c (d, q) = (d', q')"
  shows "length q' + card (waiting d') \<le> length q + card (waiting d)"
proof (cases "current \<in> set (prereqs_of pg c)")
  case False
  with assms show ?thesis by (simp add: release_step_def)
next
  case True
  define v where "v = degree_of d c - 1"
  have d': "d' = AList.update c v d"
    using assms True by (auto simp: release_step_def Let_def v_def split: if_splits)
  show ?thesis
  proof (cases "v = 0")
    case True
    then have "c \<in> waiting d" by (simp add: waiting_def v_def)
    moreover have "waiting d' = waiting d - {c}"
      using True by (auto simp: d' waiting_def degree_of_update)
    ultimately have "card (waiting d') + 1 = card (waiting d)"
      using card_Suc_Diff1 [OF finite_waiting, of c d] by simp
    moreover have "q' = q @ [c]"
      using assms \<open>current \<in> set (prereqs_of pg c)\<close> True
      by (auto simp: release_step_def Let_def v_def degree_of_update split: if_splits)
    ultimately show ?thesis by simp
  next
    case False
    have "waiting d' \<subseteq> waiting d"
      by (auto simp: d' waiting_def degree_of_update v_def split: if_splits)
    then have "card (waiting d') \<le> card (waiting d)"
      by (rule card_mono [OF finite_waiting])
    moreover have "q' = q"
      using assms \<open>current \<in> set (prereqs_of pg c)\<close> False
      by (auto simp: release_step_def Let_def v_def degree_of_update split: if_splits)
    ultimately show ?thesis by simp
  qed
qed

lemma release_measure:
  "release current cs pg (d, q) = (d', q') \<Longrightarrow>
   length q' + card (waiting d') \<le> length q + card (waiting d)"
proof (induction cs arbitrary: d q)
  case Nil
  then show ?case by (simp add: release_def)
next
  case (Cons c cs)
  obtain d1 q1 where s: "release_step current pg c (d, q) = (d1, q1)"
    by (cases "release_step current pg c (d, q)")
  with Cons.prems have "release current cs pg (d1, q1) = (d', q')"
    by (simp add: release_def)
  from Cons.IH [OF this] release_step_measure [OF s] show ?case by linarith
qed

text \<open>\<^verbatim>\<open>while queue: current = queue.pop(0); result.append(current); ...\<close>\<close>

function kahn_loop ::
  "string list \<Rightarrow> (string \<times> string list) list \<Rightarrow> (string \<times> int) list \<Rightarrow> string list
   \<Rightarrow> string list \<Rightarrow> string list" where
  "kahn_loop courses prerequisite_graph in_degree queue result =
     (case queue of
        [] \<Rightarrow> result
      | current # queue \<Rightarrow>
          (case release current courses prerequisite_graph (in_degree, queue) of
             (in_degree, queue) \<Rightarrow>
               kahn_loop courses prerequisite_graph in_degree queue (result @ [current])))"
  by pat_completeness auto
termination
  apply (relation "measure (\<lambda>(courses, pg, in_degree, queue, result).
                            length queue + card (waiting in_degree))")
   apply simp
  apply (auto dest!: release_measure [OF sym])
  done

declare kahn_loop.simps [simp del]

definition topological_sort :: "string list \<Rightarrow> (string \<times> string list) list \<Rightarrow> string list" where
  "topological_sort courses prerequisite_graph =
     (let in_degree = initial_in_degree courses;
          in_degree = count_in_degree courses prerequisite_graph in_degree;
          queue = map fst (filter (\<lambda>(course, degree). degree = 0) in_degree);
          result = []
      in kahn_loop courses prerequisite_graph in_degree queue result)"

subsection \<open>\<^verbatim>\<open>recommend_course_sequence\<close>\<close>

record CourseNode =
  n_code :: string
  n_title :: "string option"
  n_credits :: int
  n_level :: "string option"
  n_department :: "string option"
  n_description :: string
  n_prerequisites :: "string list"

record AcademicPlan =
  ap_courses :: "string list"
  ap_total_credits :: int
  ap_upper_division_credits :: int
  ap_disciplines :: "string option list"
  ap_prerequisite_violations :: "string list"
  ap_recommended_sequence :: "string list list"

definition node_of :: "course_record \<Rightarrow> CourseNode" where
  "node_of record =
     \<lparr>n_code = r_code record, n_title = r_title record,
      n_credits = credits_or_3 (r_credits record), n_level = r_level record,
      n_department = r_department record, n_description = [],
      n_prerequisites = truthy_codes (r_prerequisites record)\<rparr>"

text \<open>The first loop: the dictionaries \<^verbatim>\<open>all_courses\<close> and \<^verbatim>\<open>prerequisite_graph\<close>.\<close>

definition collect_courses ::
  "graph \<Rightarrow> string list \<Rightarrow> (string \<times> CourseNode) list \<times> (string \<times> string list) list" where
  "collect_courses g target_courses =
     fold (\<lambda>course_code (all_courses, prerequisite_graph).
             case course_query g course_code of
               None \<Rightarrow> (all_courses, prerequisite_graph)
             | Some record \<Rightarrow>
                 (AList.update course_code (node_of record) all_courses,
                  AList.update course_code (truthy_codes (r_prerequisites record))
                    prerequisite_graph))
       target_courses ([], [])"

text \<open>The loop that fills the semesters; the state is \<^verbatim>\<open>semester_sequence\<close>,
  \<^verbatim>\<open>current_semester\<close> and \<^verbatim>\<open>current_credits\<close>.\<close>

definition pack_step ::
  "(string \<times> CourseNode) list \<Rightarrow> int \<Rightarrow> string
   \<Rightarrow> string list list \<times> string list \<times> int \<Rightarrow> string list list \<times> string list \<times> int" where
  "pack_step all_courses max_credits_per_semester course_code state =
     (case state of (semester_sequence, current_semester, current_credits) \<Rightarrow>
        case map_of all_courses course_code of
          None \<Rightarrow> (semester_sequence, current_semester, current_credits)
        | Some course \<Rightarrow>
            if current_credits + n_credits course > max_credits_per_semester
               \<and> current_semester \<noteq> []
            then (semester_sequence @ [current_semester], [course_code], n_credits course)
            else (semester_sequence, current_semester @ [course_code],
                  current_credits + n_credits course))"

definition pack_semesters ::
  "(string \<times> CourseNode) list \<Rightarrow> int \<Rightarrow> string list \<Rightarrow> string list list" where
  "pack_semesters all_courses max_credits_per_semester sequence =
     (case fold (pack_step all_courses max_credits_per_semester) sequence ([], [], 0) of
        (semester_sequence, current_semester, current_credits) \<Rightarrow>
          if current_semester \<noteq> [] then semester_sequence @ [current_semester]
          else semester_sequence)"

text \<open>The parameter \<^verbatim>\<open>max_semesters\<close> is not read by the function.\<close>

definition recommend_course_sequence :: "graph \<Rightarrow> string list \<Rightarrow> int \<Rightarrow> AcademicPlan" where
  "recommend_course_sequence g target_courses max_credits_per_semester =
     (case collect_courses g target_courses of
        (all_courses, prerequisite_graph) \<Rightarrow>
          let sequence = topological_sort target_courses prerequisite_graph;
              semester_sequence = pack_semesters all_courses max_credits_per_semester sequence;
              nodes = map snd all_courses;
              total_credits = sum_list (map n_credits nodes);
              upper_division_credits =
                sum_list (map n_credits
                  (filter (\<lambda>course. n_level course = Some ''upper-division'') nodes));
              disciplines = remdups (map n_department nodes)
          in \<lparr>ap_courses = map fst all_courses, ap_total_credits = total_credits,
              ap_upper_division_credits = upper_division_credits,
              ap_disciplines = disciplines, ap_prerequisite_violations = [],
              ap_recommended_sequence = semester_sequence\<rparr>)"

subsection \<open>\<^verbatim>\<open>analyze_degree_progress\<close>\<close>

record requirement =
  rq_required :: int
  rq_current :: int
  rq_met :: bool
  rq_remaining :: int

text \<open>The result; the fields follow the nested dictionary, \<^verbatim>\<open>completed\<close>, \<^verbatim>\<open>remaining\<close>,
  \<^verbatim>\<open>totals\<close>, \<^verbatim>\<open>iap_requirements\<close> and \<^verbatim>\<open>overall_progress\<close>. The percentage is
  \<^verbatim>\<open>min(100, (total_credits / 120) * 100)\<close>, which Python computes in floating point; the
  model has the exact quotient.\<close>

record progress =
  completed_courses :: nat
  completed_credits :: int
  completed_upper_division_credits :: int
  completed_disciplines :: "string option list"
  completed_discipline_count :: nat
  remaining_courses :: nat
  remaining_course_list :: "string list"
  remaining_credits :: int
  remaining_upper_division_credits :: int
  totals_credits :: int
  totals_upper_division_credits :: int
  totals_disciplines :: "string option list"
  req_total_credits :: requirement
  req_upper_division_credits :: requirement
  req_disciplines :: requirement
  percentage :: rat
  ready_to_graduate :: bool

text \<open>The query of this function returns no prerequisites:
  \<^verbatim>\<open>MATCH (course:Course {code: $course_code}) RETURN course.code, course.title,
  course.credits, course.level, course.department\<close>.
  \<^verbatim>\<open>list(set(completed_courses + target_courses))\<close> has the codes once each, in an order
  that Python leaves open; the dictionary is only looked up.\<close>

definition collect_summaries :: "graph \<Rightarrow> string list \<Rightarrow> (string \<times> course_summary) list" where
  "collect_summaries g all_course_codes =
     fold (\<lambda>course_code course_info.
             case course_query g course_code of
               None \<Rightarrow> course_info
             | Some record \<Rightarrow> AList.update course_code (summary_of record) course_info)
       all_course_codes []"

text \<open>\<^verbatim>\<open>[course_info[code] for code in codes if code in course_info]\<close>\<close>

definition known :: "(string \<times> 'v) list \<Rightarrow> string list \<Rightarrow> 'v list" where
  "known course_info codes = List.map_filter (map_of course_info) codes"

definition analyze_degree_progress :: "graph \<Rightarrow> string list \<Rightarrow> string list \<Rightarrow> progress" where
  "analyze_degree_progress g completed target =
     (let all_course_codes = remdups (completed @ target);
          course_info = collect_summaries g all_course_codes;
          completed_credits' = sum_list (map cs_credits (known course_info completed));
          completed_upper_division = upper_division_sum (known course_info completed);
          completed_disciplines' = remdups (map cs_department (known course_info completed));
          remaining = filter (\<lambda>code. code \<notin> set completed) target;
          remaining_credits' = sum_list (map cs_credits (known course_info remaining));
          remaining_upper_division = upper_division_sum (known course_info remaining);
          total_credits = completed_credits' + remaining_credits';
          total_upper_division = completed_upper_division + remaining_upper_division;
          meets_credit_requirement = (total_credits \<ge> 120);
          meets_upper_division_requirement = (total_upper_division \<ge> 40);
          meets_discipline_requirement = (length completed_disciplines' \<ge> 3)
      in \<lparr>completed_courses = length completed,
          completed_credits = completed_credits',
          completed_upper_division_credits = completed_upper_division,
          completed_disciplines = completed_disciplines',
          completed_discipline_count = length completed_disciplines',
          remaining_courses = length remaining,
          remaining_course_list = remaining,
          remaining_credits = remaining_credits',
          remaining_upper_division_credits = remaining_upper_division,
          totals_credits = total_credits,
          totals_upper_division_credits = total_upper_division,
          totals_disciplines = completed_disciplines',
          req_total_credits =
            \<lparr>rq_required = 120, rq_current = total_credits, rq_met = meets_credit_requirement,
             rq_remaining = max 0 (120 - total_credits)\<rparr>,
          req_upper_division_credits =
            \<lparr>rq_required = 40, rq_current = total_upper_division,
             rq_met = meets_upper_division_requirement,
             rq_remaining = max 0 (40 - total_upper_division)\<rparr>,
          req_disciplines =
            \<lparr>rq_required = 3, rq_current = int (length completed_disciplines'),
             rq_met = meets_discipline_requirement,
             rq_remaining = max 0 (3 - int (length completed_disciplines'))\<rparr>,
          percentage = min 100 ((of_int total_credits / 120) * 100),
          ready_to_graduate = (meets_credit_requirement \<and> meets_upper_division_requirement
                               \<and> meets_discipline_requirement)\<rparr>)"

section \<open>Inputs and notions the properties are stated with\<close>

text \<open>Two records of the path query for \<^verbatim>\<open>CS 2420\<close>.\<close>

definition chain_example :: "path_record list" where
  "chain_example =
     [\<lparr>course_path = [''CS 1400'', ''CS 1410'', ''CS 2420''],
       credit_path = [Some 3, Some 3, Some 4], depth = 2\<rparr>,
      \<lparr>course_path = [''CS 1410'', ''CS 2420''],
       credit_path = [Some 3, Some 4], depth = 1\<rparr>]"

text \<open>No \<^verbatim>\<open>Prerequisite(s):\<close>, \<^verbatim>\<open>Prereq:\<close> or \<^verbatim>\<open>Required:\<close> section in a description, and
  no match of a contextual pattern.\<close>

definition no_prerequisite_section :: "string \<Rightarrow> bool" where
  "no_prerequisite_section description =
     list_all (\<lambda>pattern. finditer True pattern description = []) prereq_patterns"

definition no_context_cue :: "string \<Rightarrow> bool" where
  "no_context_cue description =
     list_all (\<lambda>pattern. finditer True pattern description = []) prereq_context_patterns"

text \<open>
  Notions for the population of the graph. \<open>apply_writes\<close> runs a list of
  \<^verbatim>\<open>MERGE ... SET\<close> statements on the nodes of one label; the three \<open>_writes\<close> are the
  statements of one run, with the number of each statement. \<open>key_sets\<close> are the keys of
  the nodes of a graph, \<open>adds_relationships\<close> says that a step only adds relationships,
  and which ones depends on the keys only. \<open>forget_created_at\<close> removes the
  \<^verbatim>\<open>created_at\<close> property from every node.
\<close>

definition apply_writes :: "'n \<Rightarrow> ('k \<times> ('n \<Rightarrow> 'n)) list \<Rightarrow> ('k, 'n) fmap \<Rightarrow> ('k, 'n) fmap" where
  "apply_writes new ws nodes = fold (\<lambda>(key, set_clause). merge_node key new set_clause) ws nodes"

definition department_writes ::
  "(nat \<Rightarrow> nat) \<Rightarrow> (nat \<times> DepartmentInfo) list \<Rightarrow> (string \<times> (department_node \<Rightarrow> department_node)) list" where
  "department_writes clock xs = map (\<lambda>(i, d). (d_prefix d, set_department (clock i) d)) xs"

definition course_writes ::
  "(nat \<Rightarrow> nat) \<Rightarrow> (nat \<times> CourseInfo) list \<Rightarrow> (string \<times> (course_node \<Rightarrow> course_node)) list" where
  "course_writes clock xs = map (\<lambda>(i, c). (c_code c, set_course (clock i) c)) xs"

definition program_writes ::
  "(nat \<Rightarrow> nat) \<Rightarrow> (nat \<times> ProgramInfo) list \<Rightarrow> (string \<times> (program_node \<Rightarrow> program_node)) list" where
  "program_writes clock xs = map (\<lambda>(i, p). (p_name p, set_program (clock i) p)) xs"

definition ds_of :: "academic_data \<Rightarrow> (nat \<times> DepartmentInfo) list" where
  "ds_of E = enumerate 1 (map snd (ad_departments E))"

definition cs_of :: "academic_data \<Rightarrow> (nat \<times> CourseInfo) list" where
  "cs_of E = enumerate (1 + length (ad_departments E)) (map snd (ad_courses E))"

definition ps_of :: "academic_data \<Rightarrow> (nat \<times> ProgramInfo) list" where
  "ps_of E = enumerate (1 + length (ad_departments E) + length (ad_courses E)) (map snd (ad_programs E))"

definition key_sets :: "graph \<Rightarrow> string fset \<times> string fset \<times> string fset \<times> string fset" where
  "key_sets g = (fmdom (universities g), fmdom (department_nodes g),
                 fmdom (course_nodes g), fmdom (program_nodes g))"

definition adds_relationships :: "(graph \<Rightarrow> graph) \<Rightarrow> bool" where
  "adds_relationships F \<longleftrightarrow>
     (\<exists>D. \<forall>g. F g = g\<lparr>relationships := relationships g |\<union>| D (key_sets g)\<rparr>)"

definition forget_created_at :: "graph \<Rightarrow> graph" where
  "forget_created_at g =
     g\<lparr>universities := fmmap (\<lambda>u. u\<lparr>un_created_at := None\<rparr>) (universities g),
       department_nodes := fmmap (\<lambda>d. d\<lparr>dn_created_at := None\<rparr>) (department_nodes g),
       course_nodes := fmmap (\<lambda>c. c\<lparr>cn_created_at := None\<rparr>) (course_nodes g),
       program_nodes := fmmap (\<lambda>p. p\<lparr>pn_created_at := None\<rparr>) (program_nodes g)\<rparr>"

definition node_count :: "graph \<Rightarrow> nat" where
  "node_count g = fcard (fmdom (universities g)) + fcard (fmdom (department_nodes g))
                  + fcard (fmdom (course_nodes g)) + fcard (fmdom (program_nodes g))"

definition relationship_count :: "graph \<Rightarrow> nat" where
  "relationship_count g = fcard (relationships g)"

text \<open>A catalog of three courses, a program and a department, and the graph that one
  run of the populate step builds from it.\<close>

definition catalog_example :: academic_data where
  "catalog_example =
     \<lparr>ad_courses =
        [(''CS 1400'', \<lparr>c_code = ''CS 1400'', c_prefix = ''CS'', c_number = ''1400'',
            c_title = ''Fundamentals of Programming'', c_credits = 3, c_level = ''lower_division'',
            c_description = ''Intro.'', c_prerequisites = [], c_corequisites = [],
            c_offered_semesters = [''Fall'', ''Spring'']\<rparr>),
         (''CS 1410'', \<lparr>c_code = ''CS 1410'', c_prefix = ''CS'', c_number = ''1410'',
            c_title = ''Object-Oriented Programming'', c_credits = 3, c_level = ''lower_division'',
            c_description = ''Prerequisites: CS 1400.'', c_prerequisites = [''CS 1400''],
            c_corequisites = [], c_offered_semesters = [''Fall'', ''Spring'']\<rparr>),
         (''CS 2420'', \<lparr>c_code = ''CS 2420'', c_prefix = ''CS'', c_number = ''2420'',
            c_title = ''Data Structures'', c_credits = 3, c_level = ''lower_division'',
            c_description = ''Prerequisites: CS 1410.'', c_prerequisites = [''CS 1410''],
            c_corequisites = [], c_offered_semesters = [''Fall'', ''Spring'']\<rparr>)],
      ad_programs =
        [(''Bachelor of Science in Computer Science'',
          \<lparr>p_name = ''Bachelor of Science in Computer Science'',
           p_code = ''BACHELOR_OF_SCIENCE_IN_COMPUTER_SCIENCE'', p_type = ''Bachelor'',
           p_level = ''undergraduate'', p_total_credits = 120,
           p_description = ''Bachelor of Science in Computer Science program'',
           p_department = ''Computer Science'', p_requirements = []\<rparr>)],
      ad_departments =
        [(''Computer Science'',
          \<lparr>d_name = ''Computer Science'', d_code = ''COMPUTER-SCIENCE'', d_prefix = ''CS'',
           d_description = ''Computer Science Department'', d_programs = [], d_courses = []\<rparr>)]\<rparr>"

definition catalog_graph :: graph where
  "catalog_graph = populate True (\<lambda>i. 100 + i) catalog_example empty_graph"

text \<open>The program rows that one run builds, and two program names of 600 characters that
  agree on the first 500.\<close>

definition program_rows :: "academic_data \<Rightarrow> program_row list" where
  "program_rows academic_data = program_records (map snd (ad_programs academic_data)) {} []"

definition long_name_1 :: string where
  "long_name_1 = ''Bachelor of '' @ replicate 588 CHR ''x''"

definition long_name_2 :: string where
  "long_name_2 = ''Bachelor of '' @ replicate 488 CHR ''x'' @ replicate 100 CHR ''y''"

definition long_program :: "string \<Rightarrow> ProgramInfo" where
  "long_program name =
     \<lparr>p_name = name, p_code = py_upper (replace_char CHR '' '' CHR ''_'' name),
      p_type = ''Bachelor'', p_level = ''undergraduate'', p_total_credits = 120,
      p_description = name @ '' program'', p_department = ''Programs'', p_requirements = []\<rparr>"

definition long_names_example :: academic_data where
  "long_names_example =
     \<lparr>ad_courses = [],
      ad_programs = [(long_name_1, long_program long_name_1), (long_name_2, long_program long_name_2)],
      ad_departments = []\<rparr>"

text \<open>
  The violations as the specification describes them: at every position of the list
  whose course is in the graph, the direct prerequisites of that course that are not
  among the courses of the graph at earlier positions; a violation when there is one.
  \<open>chain_prerequisites\<close>: in the graph, \<^verbatim>\<open>CS 2420\<close> has the one prerequisite
  \<^verbatim>\<open>CS 1410\<close>, \<^verbatim>\<open>CS 1410\<close> the one prerequisite \<^verbatim>\<open>CS 1400\<close>, and \<^verbatim>\<open>CS 1400\<close> none.
\<close>

definition earlier_courses :: "graph \<Rightarrow> string list \<Rightarrow> nat \<Rightarrow> string set" where
  "earlier_courses g course_codes i =
     set (filter (\<lambda>c. course_query g c \<noteq> None) (take i course_codes))"

definition expected_violation :: "graph \<Rightarrow> string list \<Rightarrow> nat \<Rightarrow> violation option" where
  "expected_violation g course_codes i =
     (case course_query g (course_codes ! i) of
        None \<Rightarrow> None
      | Some record \<Rightarrow>
          let missing = filter (\<lambda>p. p \<notin> earlier_courses g course_codes i)
                          (truthy_codes (r_prerequisites record))
          in if missing = [] then None
             else Some \<lparr>v_course = course_codes ! i, v_missing_prerequisites = missing,
                        v_message = (course_codes ! i) @ '' requires '' @ join '', '' missing
                                    @ '' which are not completed yet''\<rparr>)"

definition expected_violations :: "graph \<Rightarrow> string list \<Rightarrow> violation list" where
  "expected_violations g course_codes =
     List.map_filter (expected_violation g course_codes) [0..<length course_codes]"

definition chain_prerequisites :: "graph \<Rightarrow> bool" where
  "chain_prerequisites g \<longleftrightarrow>
     map (\<lambda>c. map_option r_prerequisites (course_query g c)) [''CS 2420'', ''CS 1410'', ''CS 1400'']
     = [Some [''CS 1410''], Some [''CS 1400''], Some []]"



text \<open>
  \<open>extractor_level\<close>: the two spellings the course extractor gives a level.
  \<open>extracted_courses\<close>: every course of the collection is a course that
  \<^verbatim>\<open>_extract_courses_from_content\<close> returned for some page. \<open>builder_levels\<close>: every
  course node of the graph has a level of the extractor's spelling, as the builder writes
  it. A page of two courses, the catalog extracted from it and the graph built from the
  catalog.
\<close>

definition extractor_level :: "string \<Rightarrow> bool" where
  "extractor_level level \<longleftrightarrow> level = ''lower_division'' \<or> level = ''upper_division''"

definition extracted_courses :: "academic_data \<Rightarrow> bool" where
  "extracted_courses academic_data \<longleftrightarrow>
     (\<forall>(code, course_info) \<in> set (ad_courses academic_data).
        \<exists>content url page_courses.
          extract_courses_from_content content url = Inr page_courses
          \<and> (code, course_info) \<in> set page_courses)"

definition networks_page :: string where
  "networks_page =
     ''CS 1400. Fundamentals of Programming. 3 Hours.'' @ [CHR 0x0A] @
     ''CS 3150. Computer Networks. 4 Hours.'' @ [CHR 0x0A] @
     ''Prerequisite: CS 1400 with a C or better.'' @ [CHR 0x0A]"

definition networks_catalog :: academic_data where
  "networks_catalog =
     \<lparr>ad_courses =
        [(''CS 1400'',
          \<lparr>c_code = ''CS 1400'', c_prefix = ''CS'', c_number = ''1400'',
           c_title = ''Fundamentals of Programming'', c_credits = 3,
           c_level = ''lower_division'', c_description = ''.'',
           c_prerequisites = [], c_corequisites = [],
           c_offered_semesters = [''Fall'', ''Spring'']\<rparr>),
         (''CS 3150'',
          \<lparr>c_code = ''CS 3150'', c_prefix = ''CS'', c_number = ''3150'',
           c_title = ''Computer Networks'', c_credits = 4,
           c_level = ''upper_division'',
           c_description = ''. Prerequisite: CS 1400 with a C or better.'',
           c_prerequisites = [''CS 1400''], c_corequisites = [],
           c_offered_semesters = [''Fall'', ''Spring'']\<rparr>)],
      ad_programs = [], ad_departments = []\<rparr>"

definition networks_graph :: graph where
  "networks_graph = populate True (\<lambda>i. 100 + i) networks_catalog empty_graph"

definition builder_levels :: "graph \<Rightarrow> bool" where
  "builder_levels g \<longleftrightarrow>
     (\<forall>code node. fmlookup (course_nodes g) code = Some node \<longrightarrow>
        (\<exists>level. cn_level node = Some level \<and> extractor_level level))"

text \<open>
  The recommended sequence. \<open>linear_order\<close>: the semesters of a plan, one after the other.
  \<open>direct_prerequisites\<close>: the \<^verbatim>\<open>prerequisites\<close> of the \<^verbatim>\<open>CourseNode\<close> that
  \<^verbatim>\<open>get_course_info\<close> returns for a code, none for a code that is not in the graph.
  \<open>prerequisite_within\<close>: the pairs of a direct prerequisite and its course, both among the
  target courses. \<open>precedes xs a b\<close>: \<open>b\<close> stands after the first \<open>a\<close> in \<open>xs\<close>.
\<close>

definition linear_order :: "AcademicPlan \<Rightarrow> string list" where
  "linear_order plan = concat (ap_recommended_sequence plan)"

definition direct_prerequisites :: "graph \<Rightarrow> string \<Rightarrow> string list" where
  "direct_prerequisites g course_code =
     (case course_query g course_code of
        None \<Rightarrow> []
      | Some record \<Rightarrow> n_prerequisites (node_of record))"

definition prerequisite_within :: "graph \<Rightarrow> string list \<Rightarrow> (string \<times> string) set" where
  "prerequisite_within g target_courses =
     {(p, c). p \<in> set target_courses \<and> c \<in> set target_courses
              \<and> p \<in> set (direct_prerequisites g c)}"

fun precedes :: "'a list \<Rightarrow> 'a \<Rightarrow> 'a \<Rightarrow> bool" where
  "precedes [] a b = False"
| "precedes (x # xs) a b = (if x = a then b \<in> set xs else precedes xs a b)"

text \<open>
  The state of \<^verbatim>\<open>_topological_sort\<close>. \<open>tab cs f\<close> is the dictionary \<^verbatim>\<open>in_degree\<close> with the
  keys \<open>cs\<close>, in this order, and the values \<open>f\<close>. \<open>needed\<close>: the prerequisites of a course
  that are among the courses. \<open>ordered\<close>: every course of the result has its needed
  prerequisites at earlier positions. \<open>kahn_inv\<close> is what holds of \<^verbatim>\<open>in_degree\<close>,
  \<^verbatim>\<open>queue\<close> and \<^verbatim>\<open>result\<close> at the head of the \<^verbatim>\<open>while\<close> loop: no course is twice in
  result and queue, the in-degree of a course counts its needed prerequisites that are
  not in the result yet, and the courses in result or queue are those with every needed
  prerequisite in the result.
\<close>

definition tab :: "string list \<Rightarrow> (string \<Rightarrow> int) \<Rightarrow> (string \<times> int) list" where
  "tab cs f = map (\<lambda>c. (c, f c)) cs"

definition needed :: "string list \<Rightarrow> (string \<times> string list) list \<Rightarrow> string \<Rightarrow> string set" where
  "needed cs pg c = set (prereqs_of pg c) \<inter> set cs"

definition ordered :: "string list \<Rightarrow> (string \<times> string list) list \<Rightarrow> string list \<Rightarrow> bool" where
  "ordered cs pg r = (\<forall>i<length r. needed cs pg (r ! i) \<subseteq> set (take i r))"

definition kahn_inv ::
  "string list \<Rightarrow> (string \<times> string list) list \<Rightarrow> (string \<Rightarrow> int) \<Rightarrow> string list \<Rightarrow> string list \<Rightarrow> bool" where
  "kahn_inv cs pg f q r =
     (distinct (r @ q) \<and> set (r @ q) \<subseteq> set cs
      \<and> (\<forall>c\<in>set cs. f c = int (card (needed cs pg c - set r)))
      \<and> (\<forall>c\<in>set cs. c \<in> set (r @ q) \<longleftrightarrow> needed cs pg c \<subseteq> set r)
      \<and> ordered cs pg r)"

text \<open>The three courses of the example catalog, last course of the chain first.\<close>

definition chain_targets :: "string list" where
  "chain_targets = [''CS 2420'', ''CS 1410'', ''CS 1400'']"

chapter \<open>Properties\<close>

section \<open>Course level\<close>

text \<open>
  C2. The level of a course is read from its number: graduate from 5000 on, upper
  division from 3000 to 4999, lower division below 3000. The source tests
  \<^verbatim>\<open>>= 3000\<close> before \<^verbatim>\<open>>= 5000\<close>, so the graduate branch is never taken: the page
  \<^verbatim>\<open>CS 5000. Advanced Topics.\<close> gives one course, and its level is
  \<^verbatim>\<open>upper_division\<close>.
\<close>

theorem course_level_5000_upper_division:
  "map_sum id (map (\<lambda>(code, c). (code, c_number c, c_level c)))
     (extract_courses_from_content ''CS 5000. Advanced Topics.'' [])
   = Inr [(''CS 5000'', ''5000'', ''upper_division'')]
   \<and> course_level 5000 = ''upper_division''"
  by code_simp

section \<open>Prerequisite paths\<close>

lemma chain_loop_rel:
  "chain_loop code records acc = Inr paths \<Longrightarrow>
   \<exists>new. paths = acc @ new \<and>
     list_all2 (\<lambda>r p. path_of_record code r = Inr p) records new"
proof (induction records arbitrary: acc)
  case Nil
  then show ?case by simp
next
  case (Cons r records)
  from Cons.prems obtain p where p: "path_of_record code r = Inr p"
    and rest: "chain_loop code records (acc @ [p]) = Inr paths"
    by (auto split: sum.splits)
  from Cons.IH [OF rest] obtain new where
    "paths = (acc @ [p]) @ new" "list_all2 (\<lambda>r p. path_of_record code r = Inr p) records new"
    by blast
  with p show ?case by (intro exI [of _ "p # new"]) simp
qed

lemma path_of_record_fields:
  "path_of_record code r = Inr p \<Longrightarrow>
   pp_path p = course_path r \<and> pp_semesters_needed p = max 1 ((depth r + 1) div 2)"
  by (auto simp: path_of_record_def Let_def split: sum.splits)

lemma floor_half_ceiling: "(1::int) \<le> d \<Longrightarrow> max 1 ((d + 1) div 2) = \<lceil>of_int d / (2::real)\<rceil>"
  by linarith

text \<open>
  C3, as the code has it. Every path that \<^verbatim>\<open>get_prerequisite_chain\<close> returns belongs to
  one record of the query, in order, and its \<^verbatim>\<open>semesters_needed\<close> is
  \<^verbatim>\<open>max(1, (depth + 1) // 2)\<close>: the quotient rounded down, not up. For a path of at least
  one relationship this is the ceiling of \<^verbatim>\<open>depth / 2\<close>.
\<close>

theorem semesters_needed_rounds_down:
  assumes "get_prerequisite_chain code records = Inr paths"
  shows "list_all2 (\<lambda>r p. pp_path p = course_path r
            \<and> pp_semesters_needed p = max 1 ((depth r + 1) div 2)
            \<and> (1 \<le> depth r \<longrightarrow> pp_semesters_needed p = \<lceil>of_int (depth r) / (2::real)\<rceil>))
          records paths"
proof -
  from assms obtain new where "paths = [] @ new"
    and rel: "list_all2 (\<lambda>r p. path_of_record code r = Inr p) records new"
    unfolding get_prerequisite_chain_def by (blast dest: chain_loop_rel)
  then have "list_all2 (\<lambda>r p. path_of_record code r = Inr p) records paths" by simp
  then show ?thesis
  proof (rule list_all2_mono)
    fix r p assume "path_of_record code r = Inr p"
    then have f: "pp_path p = course_path r"
      "pp_semesters_needed p = max 1 ((depth r + 1) div 2)"
      by (simp_all add: path_of_record_fields)
    then show "pp_path p = course_path r
        \<and> pp_semesters_needed p = max 1 ((depth r + 1) div 2)
        \<and> (1 \<le> depth r \<longrightarrow> pp_semesters_needed p = \<lceil>of_int (depth r) / (2::real)\<rceil>)"
      using floor_half_ceiling [of "depth r"] by simp
  qed
qed

lemma chain_example_result:
  "get_prerequisite_chain ''CS 2420'' chain_example =
   Inr [\<lparr>pp_target_course = ''CS 2420'', pp_path = [''CS 1400'', ''CS 1410'', ''CS 2420''],
         pp_total_credits = 10, pp_semesters_needed = 1\<rparr>,
        \<lparr>pp_target_course = ''CS 2420'', pp_path = [''CS 1410'', ''CS 2420''],
         pp_total_credits = 7, pp_semesters_needed = 1\<rparr>]"
  by (simp add: get_prerequisite_chain_def chain_example_def path_of_record_def py_sum_def)

theorem semesters_needed_rounds_down_witness:
  "list_all2 (\<lambda>r p. pp_path p = course_path r
            \<and> pp_semesters_needed p = max 1 ((depth r + 1) div 2)
            \<and> (1 \<le> depth r \<longrightarrow> pp_semesters_needed p = \<lceil>of_int (depth r) / (2::real)\<rceil>))
     chain_example
     [\<lparr>pp_target_course = ''CS 2420'', pp_path = [''CS 1400'', ''CS 1410'', ''CS 2420''],
         pp_total_credits = 10, pp_semesters_needed = 1\<rparr>,
        \<lparr>pp_target_course = ''CS 2420'', pp_path = [''CS 1410'', ''CS 2420''],
         pp_total_credits = 7, pp_semesters_needed = 1\<rparr>]"
  by (rule semesters_needed_rounds_down [OF chain_example_result])

text \<open>
  The claim as stated fails on a path of two relationships: the claim annotates it
  with \<^verbatim>\<open>ceil((2 + 1) / 2) = 2\<close> semesters, the code with 1.
\<close>

theorem semesters_needed_not_ceiling:
  "\<exists>p. get_prerequisite_chain ''CS 2420''
          [\<lparr>course_path = [''CS 1400'', ''CS 1410'', ''CS 2420''],
            credit_path = [Some 3, Some 3, Some 4], depth = 2\<rparr>] = Inr [p]
       \<and> int (length (pp_path p)) - 1 = 2
       \<and> pp_semesters_needed p = 1
       \<and> \<lceil>(of_int (int (length (pp_path p)) - 1) + 1) / (2::real)\<rceil> = 2"
  by (simp add: get_prerequisite_chain_def path_of_record_def py_sum_def)

section \<open>Prerequisite extraction\<close>

lemma fold_no_matches:
  "list_all (\<lambda>pattern. finditer True pattern d = []) ps \<Longrightarrow>
   fold (\<lambda>pattern acc. fold (\<lambda>mt. add_unique (normalize_code mt)) (findall1 True pattern d) acc)
     ps acc = acc"
  by (induction ps arbitrary: acc) (simp_all add: findall1_def)

lemma extract_prerequisites_no_cue:
  assumes "no_prerequisite_section d" and "no_context_cue d"
  shows "extract_prerequisites d = []"
proof -
  have s: "concat (map (\<lambda>pattern. findall1 True pattern d) prereq_patterns) = []"
    using assms(1) by (simp add: no_prerequisite_section_def findall1_def list_all_iff)
  have c: "fold (\<lambda>pattern acc. fold (\<lambda>mt. add_unique (normalize_code mt)) (findall1 True pattern d) acc)
             prereq_context_patterns [] = []"
    using assms(2) unfolding no_context_cue_def by (rule fold_no_matches)
  show ?thesis
    unfolding extract_prerequisites_def Let_def s by (simp add: c)
qed

text \<open>
  C5. \<^verbatim>\<open>_extract_prerequisites\<close> returns \<^verbatim>\<open>CS 1400\<close> and \<^verbatim>\<open>MATH 1050\<close> for
  \<^verbatim>\<open>Prerequisites: CS 1400 and MATH 1050.\<close>, and nothing for
  \<^verbatim>\<open>See also CS 1400 for related content.\<close>; in general it returns nothing for a
  description in which none of the three section patterns and none of the three
  contextual patterns matches, whatever course codes the description mentions.
\<close>

theorem extract_prerequisites_precise:
  "extract_prerequisites ''Prerequisites: CS 1400 and MATH 1050.'' = [''CS 1400'', ''MATH 1050'']
   \<and> extract_prerequisites ''See also CS 1400 for related content.'' = []
   \<and> (no_prerequisite_section d \<and> no_context_cue d \<longrightarrow> extract_prerequisites d = [])"
proof (intro conjI impI)
  show "extract_prerequisites ''Prerequisites: CS 1400 and MATH 1050.'' = [''CS 1400'', ''MATH 1050'']"
    by code_simp
  show "extract_prerequisites ''See also CS 1400 for related content.'' = []"
    by code_simp
  show "extract_prerequisites d = []" if "no_prerequisite_section d \<and> no_context_cue d"
    using that by (simp add: extract_prerequisites_no_cue)
qed

lemma builds_on_no_section:
  "no_prerequisite_section ''Builds on CS 1410 and MATH 1210 topics.''"
  by code_simp

lemma builds_on_no_cue:
  "no_context_cue ''Builds on CS 1410 and MATH 1210 topics.''"
  by code_simp

lemma builds_on_mentions_codes:
  "findall2 True code_rx ''Builds on CS 1410 and MATH 1210 topics.'' =
     [(''CS'', ''1410''), (''MATH'', ''1210'')]"
  by code_simp

text \<open>A third description satisfies the hypotheses of the general part, and it does
  mention course codes.\<close>

theorem extract_prerequisites_precise_witness:
  "no_prerequisite_section ''Builds on CS 1410 and MATH 1210 topics.''
   \<and> no_context_cue ''Builds on CS 1410 and MATH 1210 topics.''
   \<and> findall2 True code_rx ''Builds on CS 1410 and MATH 1210 topics.'' =
       [(''CS'', ''1410''), (''MATH'', ''1210'')]
   \<and> extract_prerequisites ''Builds on CS 1410 and MATH 1210 topics.'' = []"
  using extract_prerequisites_precise [of "''Builds on CS 1410 and MATH 1210 topics.''"]
    builds_on_no_section builds_on_no_cue builds_on_mentions_codes
  by blast

section \<open>Program extraction\<close>

text \<open>
  C4. Program extraction is to reject a candidate name that is shorter than 10
  characters, is a bare \<^verbatim>\<open>degree\<close> or \<^verbatim>\<open>certificate\<close>, or contains a pipe.
  \<^verbatim>\<open>_extract_programs_from_content\<close> has no such test (the stand-alone populator
  \<^verbatim>\<open>agent-docs/tests/populate_supabase_tables.py\<close> has it): from the page
  \<^verbatim>\<open>Art Minor\<close> it produces the program \<^verbatim>\<open>Art Minor\<close>, of 9 characters, and from
  \<^verbatim>\<open>Bachelor of Science | Utah Tech University\<close> a program whose name contains the pipe.
\<close>

theorem short_and_pipe_program_names_kept:
  "map (\<lambda>(name, p). (name, p_type p, length (p_name p)))
     (extract_programs_from_content ''Art Minor'' ''https://catalog.utahtech.edu/programs/art'')
   = [(''Art Minor'', ''Minor'', 9)]
   \<and> map (\<lambda>(name, p). (name, p_type p, CHR ''|'' \<in> set (p_name p)))
     (extract_programs_from_content ''Bachelor of Science | Utah Tech University''
        ''https://catalog.utahtech.edu/programs/'')
   = [(''Bachelor of Science | Utah Tech University'', ''Bachelor'', True)]"
  by code_simp

section \<open>Population of the graph, run twice\<close>

lemma apply_writes_simps [simp]:
  "apply_writes new [] m = m"
  "apply_writes new ((k, f) # ws) m = apply_writes new ws (merge_node k new f m)"
  "apply_writes new (ws @ ws') m = apply_writes new ws' (apply_writes new ws m)"
  by (simp_all add: apply_writes_def)

lemma merge_node_same:
  assumes "\<And>n. f' (f n) = f' n"
  shows "merge_node k new f' (merge_node k new f m) = merge_node k new f' m"
  using assms by (simp add: merge_node_def split: option.split)

lemma merge_node_swap:
  assumes "k \<noteq> k'"
  shows "merge_node k' new f' (merge_node k new f m) = merge_node k new f (merge_node k' new f' m)"
  using assms by (simp add: merge_node_def fmupd_reorder_neq)

lemma apply_writes_absorb_one:
  assumes "k \<in> fst ` set ws" and "\<And>k' f' n. (k', f') \<in> set ws \<Longrightarrow> f' (f n) = f' n"
  shows "apply_writes new ws (merge_node k new f m) = apply_writes new ws m"
  using assms
proof (induction ws arbitrary: m)
  case Nil
  then show ?case by simp
next
  case (Cons w ws)
  obtain k' f' where w: "w = (k', f')" by (cases w)
  show ?case
  proof (cases "k' = k")
    case True
    have "merge_node k new f' (merge_node k new f m) = merge_node k new f' m"
      using Cons.prems(2) [of k' f'] w by (intro merge_node_same) simp
    with True w show ?thesis by simp
  next
    case False
    then have "k \<in> fst ` set ws" using Cons.prems(1) w by auto
    then have "apply_writes new ws (merge_node k new f (merge_node k' new f' m))
             = apply_writes new ws (merge_node k' new f' m)"
      using Cons.prems(2) by (intro Cons.IH) auto
    with False w show ?thesis by (simp add: merge_node_swap [of k k'])
  qed
qed

lemma apply_writes_absorb:
  assumes "fst ` set ws1 \<subseteq> fst ` set ws2"
    and "\<And>k1 f1 k2 f2 n. (k1, f1) \<in> set ws1 \<Longrightarrow> (k2, f2) \<in> set ws2 \<Longrightarrow> f2 (f1 n) = f2 n"
  shows "apply_writes new ws2 (apply_writes new ws1 m) = apply_writes new ws2 m"
  using assms
proof (induction ws1 rule: rev_induct)
  case Nil
  then show ?case by simp
next
  case (snoc w ws1)
  obtain k f where w: "w = (k, f)" by (cases w)
  have "k \<in> fst ` set ws2"
    using snoc.prems(1) w by auto
  moreover have "f' (f n) = f' n" if "(k', f') \<in> set ws2" for k' f' n
    using snoc.prems(2) [of k f k' f' n] that w by simp
  ultimately have "apply_writes new ws2 (merge_node k new f (apply_writes new ws1 m))
      = apply_writes new ws2 (apply_writes new ws1 m)"
    by (rule apply_writes_absorb_one)
  also have "\<dots> = apply_writes new ws2 m"
  proof (rule snoc.IH)
    show "fst ` set ws1 \<subseteq> fst ` set ws2" using snoc.prems(1) by auto
    show "f2 (f1 n) = f2 n" if "(k1, f1) \<in> set ws1" "(k2, f2) \<in> set ws2" for k1 f1 k2 f2 n
      using snoc.prems(2) [of k1 f1 k2 f2 n] that by simp
  qed
  finally show ?case by (simp add: w)
qed

lemma fmdom_merge_node [simp]: "fmdom (merge_node k new f m) = finsert k (fmdom m)"
  by (simp add: merge_node_def)

lemma fmdom_apply_writes: "fmdom (apply_writes new ws m) = fmdom m |\<union>| fset_of_list (map fst ws)"
proof (induction ws arbitrary: m)
  case Nil
  then show ?case by simp
next
  case (Cons w ws)
  obtain k f where w: "w = (k, f)" by (cases w)
  have "fmdom (apply_writes new (w # ws) m) = finsert k (fmdom m) |\<union>| fset_of_list (map fst ws)"
    unfolding w apply_writes_simps Cons.IH by simp
  then show ?case by (simp add: w del: fset_of_list_map)
qed

lemma fmmap_merge_node:
  "fmmap e (merge_node k new f m) =
   fmupd k (e (f (case fmlookup m k of None \<Rightarrow> new | Some n \<Rightarrow> n))) (fmmap e m)"
  by (rule fmap_ext) (simp add: merge_node_def)

lemma apply_writes_forget:
  assumes "list_all2 (\<lambda>w1 w2. fst w1 = fst w2 \<and>
              (\<forall>n n'. e n = e n' \<longrightarrow> e (snd w1 n) = e (snd w2 n'))) ws1 ws2"
    and "fmmap e m1 = fmmap e m2"
  shows "fmmap e (apply_writes new ws1 m1) = fmmap e (apply_writes new ws2 m2)"
  using assms
proof (induction ws1 ws2 arbitrary: m1 m2 rule: list_all2_induct)
  case Nil
  then show ?case by simp
next
  case (Cons w1 ws1 w2 ws2)
  obtain k f1 where w1: "w1 = (k, f1)" by (cases w1)
  with Cons.hyps(1) obtain f2 where w2: "w2 = (k, f2)" by (cases w2) auto
  have base: "e (case fmlookup m1 k of None \<Rightarrow> new | Some n \<Rightarrow> n)
            = e (case fmlookup m2 k of None \<Rightarrow> new | Some n \<Rightarrow> n)"
  proof -
    have "map_option e (fmlookup m1 k) = map_option e (fmlookup m2 k)"
      using Cons.prems by (metis fmlookup_map)
    then show ?thesis by (auto split: option.splits)
  qed
  have "fmmap e (merge_node k new f1 m1) = fmmap e (merge_node k new f2 m2)"
    using Cons.hyps(1) base Cons.prems by (simp add: fmmap_merge_node w1 w2)
  then show ?case using Cons.IH by (simp add: w1 w2)
qed

lemma fold_merge_department:
  "fold (\<lambda>(i, d). merge_department (clock i) d) xs g =
   g\<lparr>department_nodes := apply_writes new_department (department_writes clock xs) (department_nodes g)\<rparr>"
  by (induction xs arbitrary: g)
     (simp_all add: department_writes_def merge_department_def split: prod.split)

lemma fold_merge_course:
  "fold (\<lambda>(i, c). merge_course (clock i) c) xs g =
   g\<lparr>course_nodes := apply_writes new_course (course_writes clock xs) (course_nodes g)\<rparr>"
  by (induction xs arbitrary: g)
     (simp_all add: course_writes_def merge_course_def split: prod.split)

lemma fold_merge_program:
  "fold (\<lambda>(i, p). merge_program (clock i) p) xs g =
   g\<lparr>program_nodes := apply_writes new_program (program_writes clock xs) (program_nodes g)\<rparr>"
  by (induction xs arbitrary: g)
     (simp_all add: program_writes_def merge_program_def split: prod.split)

lemma populate_neo4j_form:
  "populate_neo4j True clock E g =
   g\<lparr>universities := merge_node ''Utah Tech University'' new_university (set_university (clock 0)) (universities g),
     department_nodes := apply_writes new_department (department_writes clock (ds_of E)) (department_nodes g),
     course_nodes := apply_writes new_course (course_writes clock (cs_of E)) (course_nodes g),
     program_nodes := apply_writes new_program (program_writes clock (ps_of E)) (program_nodes g)\<rparr>"
  by (simp add: populate_neo4j_def Let_def fold_merge_department fold_merge_course fold_merge_program
      merge_university_def ds_of_def cs_of_def ps_of_def)

lemma keys_department_writes: "map fst (department_writes clock xs) = map (d_prefix \<circ> snd) xs"
  by (simp add: department_writes_def case_prod_beta comp_def)

lemma keys_course_writes: "map fst (course_writes clock xs) = map (c_code \<circ> snd) xs"
  by (simp add: course_writes_def case_prod_beta comp_def)

lemma keys_program_writes: "map fst (program_writes clock xs) = map (p_name \<circ> snd) xs"
  by (simp add: program_writes_def case_prod_beta comp_def)

lemma department_writes_absorb:
  "apply_writes new_department (department_writes c2 xs)
     (apply_writes new_department (department_writes c1 xs) m)
   = apply_writes new_department (department_writes c2 xs) m"
proof (rule apply_writes_absorb)
  show "fst ` set (department_writes c1 xs) \<subseteq> fst ` set (department_writes c2 xs)"
    using keys_department_writes [of c1 xs] keys_department_writes [of c2 xs]
    by (metis set_map subset_refl)
  show "f2 (f1 n) = f2 n"
    if "(k1, f1) \<in> set (department_writes c1 xs)" "(k2, f2) \<in> set (department_writes c2 xs)"
    for k1 f1 k2 f2 n
    using that by (auto simp: department_writes_def set_department_def)
qed

lemma course_writes_absorb:
  "apply_writes new_course (course_writes c2 xs)
     (apply_writes new_course (course_writes c1 xs) m)
   = apply_writes new_course (course_writes c2 xs) m"
proof (rule apply_writes_absorb)
  show "fst ` set (course_writes c1 xs) \<subseteq> fst ` set (course_writes c2 xs)"
    using keys_course_writes [of c1 xs] keys_course_writes [of c2 xs]
    by (metis set_map subset_refl)
  show "f2 (f1 n) = f2 n"
    if "(k1, f1) \<in> set (course_writes c1 xs)" "(k2, f2) \<in> set (course_writes c2 xs)"
    for k1 f1 k2 f2 n
    using that by (auto simp: course_writes_def set_course_def)
qed

lemma program_writes_absorb:
  "apply_writes new_program (program_writes c2 xs)
     (apply_writes new_program (program_writes c1 xs) m)
   = apply_writes new_program (program_writes c2 xs) m"
proof (rule apply_writes_absorb)
  show "fst ` set (program_writes c1 xs) \<subseteq> fst ` set (program_writes c2 xs)"
    using keys_program_writes [of c1 xs] keys_program_writes [of c2 xs]
    by (metis set_map subset_refl)
  show "f2 (f1 n) = f2 n"
    if "(k1, f1) \<in> set (program_writes c1 xs)" "(k2, f2) \<in> set (program_writes c2 xs)"
    for k1 f1 k2 f2 n
    using that by (auto simp: program_writes_def set_program_def)
qed

lemma university_absorb:
  "merge_node k new_university (set_university t2) (merge_node k new_university (set_university t1) m)
   = merge_node k new_university (set_university t2) m"
  by (rule merge_node_same) (simp add: set_university_def)

lemma populate_neo4j_twice:
  "populate_neo4j d c2 E (populate_neo4j d c1 E g) = populate_neo4j d c2 E g"
proof (cases d)
  case True
  then show ?thesis
    by (simp add: populate_neo4j_form university_absorb department_writes_absorb
        course_writes_absorb program_writes_absorb)
next
  case False
  then show ?thesis by (simp add: populate_neo4j_def)
qed

lemma adds_relationshipsI:
  "(\<And>g. F g = g\<lparr>relationships := relationships g |\<union>| D (key_sets g)\<rparr>) \<Longrightarrow> adds_relationships F"
  unfolding adds_relationships_def by blast

lemma key_sets_relationships [simp]: "key_sets (g\<lparr>relationships := R\<rparr>) = key_sets g"
  by (simp add: key_sets_def)

lemma adds_id: "adds_relationships (\<lambda>g. g)"
  by (rule adds_relationshipsI [where D = "\<lambda>_. {||}"]) simp

lemma adds_comp:
  assumes "adds_relationships F" and "adds_relationships G"
  shows "adds_relationships (\<lambda>g. G (F g))"
proof -
  from assms obtain D1 D2 where
    F: "\<And>g. F g = g\<lparr>relationships := relationships g |\<union>| D1 (key_sets g)\<rparr>" and
    G: "\<And>g. G g = g\<lparr>relationships := relationships g |\<union>| D2 (key_sets g)\<rparr>"
    unfolding adds_relationships_def by blast
  show ?thesis
    by (rule adds_relationshipsI [where D = "\<lambda>ks. D1 ks |\<union>| D2 ks"])
       (simp add: F G funion_assoc)
qed

lemma adds_fold:
  assumes "\<And>a. adds_relationships (f a)"
  shows "adds_relationships (fold f xs)"
proof (induction xs)
  case Nil
  show ?case using adds_id by (simp add: id_def)
next
  case (Cons a xs)
  have "adds_relationships (\<lambda>g. fold f xs (f a g))"
    using assms Cons.IH by (rule adds_comp)
  then show ?case by (simp add: comp_def)
qed

lemma adds_link_course_department: "adds_relationships (link_course_department c)"
  by (rule adds_relationshipsI [where D = "\<lambda>(U, D, C, P).
        if c_code c |\<in>| C \<and> c_prefix c |\<in>| D
        then {|(Course (c_code c), BELONGS_TO_DISCIPLINE, Department (c_prefix c)),
               (Department (c_prefix c), OFFERS_COURSE, Course (c_code c))|}
        else {||}"])
     (simp add: link_course_department_def merge_relationship_def key_sets_def)

lemma adds_link_prerequisite: "adds_relationships (link_prerequisite code p)"
  by (rule adds_relationshipsI [where D = "\<lambda>(U, D, C, P).
        if p |\<in>| C \<and> code |\<in>| C then {|(Course p, PREREQUISITE_FOR, Course code)|} else {||}"])
     (simp add: link_prerequisite_def merge_relationship_def key_sets_def)

lemma adds_link_prerequisites: "adds_relationships (link_prerequisites c)"
  unfolding link_prerequisites_def by (rule adds_fold) (rule adds_link_prerequisite)

lemma adds_link_program_department: "adds_relationships (link_program_department p)"
  by (rule adds_relationshipsI [where D = "\<lambda>(U, D, C, P).
        if p_department p \<noteq> [] \<and> extract_department_prefix (p_department p) \<noteq> []
           \<and> p_name p |\<in>| P \<and> extract_department_prefix (p_department p) |\<in>| D
        then {|(Program (p_name p), BELONGS_TO_DEPARTMENT,
                 Department (extract_department_prefix (p_department p))),
               (Department (extract_department_prefix (p_department p)), OFFERS_PROGRAM,
                 Program (p_name p))|}
        else {||}"])
     (simp add: link_program_department_def merge_relationship_def key_sets_def Let_def)

lemma adds_link_university_departments: "adds_relationships link_university_departments"
  by (rule adds_relationshipsI [where D = "\<lambda>(U, D, C, P).
        ffUnion ((\<lambda>u. (\<lambda>d. (University u, HAS_DEPARTMENT, Department d)) |`| D) |`| U)"])
     (simp add: link_university_departments_def key_sets_def)

lemma adds_create_relationships: "adds_relationships (create_relationships d E)"
proof (cases d)
  case True
  have 1: "adds_relationships (fold link_course_department (map snd (ad_courses E)))"
    by (rule adds_fold) (rule adds_link_course_department)
  have 2: "adds_relationships (fold link_prerequisites (map snd (ad_courses E)))"
    by (rule adds_fold) (rule adds_link_prerequisites)
  have 3: "adds_relationships (fold link_program_department (map snd (ad_programs E)))"
    by (rule adds_fold) (rule adds_link_program_department)
  note 12 = adds_comp [OF 1 2]
  note 123 = adds_comp [OF 12 3]
  note all = adds_comp [OF 123 adds_link_university_departments]
  have "create_relationships True E =
        (\<lambda>g. link_university_departments
          (fold link_program_department (map snd (ad_programs E))
            (fold link_prerequisites (map snd (ad_courses E))
              (fold link_course_department (map snd (ad_courses E)) g))))"
    by (rule ext) (simp add: create_relationships_def Let_def)
  with all True show ?thesis by simp
next
  case False
  have "create_relationships False E = (\<lambda>g. g)"
    by (rule ext) (simp add: create_relationships_def)
  with False adds_id show ?thesis by simp
qed

lemma create_relationships_form:
  "\<exists>D. \<forall>g. create_relationships d E g = g\<lparr>relationships := relationships g |\<union>| D (key_sets g)\<rparr>"
  using adds_create_relationships [of d E] unfolding adds_relationships_def .

lemma key_sets_populate_neo4j:
  "key_sets (populate_neo4j d c1 E g) = key_sets (populate_neo4j d c2 E g)"
proof (cases d)
  case True
  then show ?thesis
    by (simp add: populate_neo4j_form key_sets_def fmdom_apply_writes
        keys_department_writes keys_course_writes keys_program_writes)
next
  case False
  then show ?thesis by (simp add: populate_neo4j_def)
qed

lemma populate_neo4j_relationships:
  "populate_neo4j d c E (g\<lparr>relationships := R\<rparr>) = (populate_neo4j d c E g)\<lparr>relationships := R\<rparr>"
  by (cases d) (simp_all add: populate_neo4j_form, simp add: populate_neo4j_def)

lemma relationships_populate_neo4j [simp]:
  "relationships (populate_neo4j d c E g) = relationships g"
  by (cases d) (simp_all add: populate_neo4j_form, simp add: populate_neo4j_def)

lemma populate_twice: "populate d c2 E (populate d c1 E g) = populate d c2 E g"
proof -
  obtain D where cr:
    "\<And>g. create_relationships d E g = g\<lparr>relationships := relationships g |\<union>| D (key_sets g)\<rparr>"
    using create_relationships_form [of d E] by blast
  have k: "key_sets (populate_neo4j d c1 E g) = key_sets (populate_neo4j d c2 E g)"
    by (rule key_sets_populate_neo4j)
  have k2: "key_sets (populate_neo4j d c2 E (populate_neo4j d c1 E g)) = key_sets (populate_neo4j d c2 E g)"
    by (simp add: populate_neo4j_twice)
  show ?thesis
    unfolding populate_def cr
    by (simp add: populate_neo4j_relationships populate_neo4j_twice k)
qed

lemma department_writes_forget:
  "list_all2 (\<lambda>w1 w2. fst w1 = fst w2 \<and>
      (\<forall>n n'. n\<lparr>dn_created_at := None\<rparr> = n'\<lparr>dn_created_at := None\<rparr> \<longrightarrow>
         (snd w1 n)\<lparr>dn_created_at := None\<rparr> = (snd w2 n')\<lparr>dn_created_at := None\<rparr>))
     (department_writes c1 xs) (department_writes c2 xs)"
proof -
  have "(set_department t1 d n)\<lparr>dn_created_at := None\<rparr> = (set_department t2 d n')\<lparr>dn_created_at := None\<rparr>"
    if "n\<lparr>dn_created_at := None\<rparr> = n'\<lparr>dn_created_at := None\<rparr>" for t1 t2 d n n'
    using that by (cases n; cases n') (simp add: set_department_def)
  then show ?thesis
    by (simp add: department_writes_def list_all2_map1 list_all2_map2 list_all2_same case_prod_beta)
qed

lemma course_writes_forget:
  "list_all2 (\<lambda>w1 w2. fst w1 = fst w2 \<and>
      (\<forall>n n'. n\<lparr>cn_created_at := None\<rparr> = n'\<lparr>cn_created_at := None\<rparr> \<longrightarrow>
         (snd w1 n)\<lparr>cn_created_at := None\<rparr> = (snd w2 n')\<lparr>cn_created_at := None\<rparr>))
     (course_writes c1 xs) (course_writes c2 xs)"
proof -
  have "(set_course t1 d n)\<lparr>cn_created_at := None\<rparr> = (set_course t2 d n')\<lparr>cn_created_at := None\<rparr>"
    if "n\<lparr>cn_created_at := None\<rparr> = n'\<lparr>cn_created_at := None\<rparr>" for t1 t2 d n n'
    using that by (cases n; cases n') (simp add: set_course_def)
  then show ?thesis
    by (simp add: course_writes_def list_all2_map1 list_all2_map2 list_all2_same case_prod_beta)
qed

lemma program_writes_forget:
  "list_all2 (\<lambda>w1 w2. fst w1 = fst w2 \<and>
      (\<forall>n n'. n\<lparr>pn_created_at := None\<rparr> = n'\<lparr>pn_created_at := None\<rparr> \<longrightarrow>
         (snd w1 n)\<lparr>pn_created_at := None\<rparr> = (snd w2 n')\<lparr>pn_created_at := None\<rparr>))
     (program_writes c1 xs) (program_writes c2 xs)"
proof -
  have "(set_program t1 d n)\<lparr>pn_created_at := None\<rparr> = (set_program t2 d n')\<lparr>pn_created_at := None\<rparr>"
    if "n\<lparr>pn_created_at := None\<rparr> = n'\<lparr>pn_created_at := None\<rparr>" for t1 t2 d n n'
    using that by (cases n; cases n') (simp add: set_program_def)
  then show ?thesis
    by (simp add: program_writes_def list_all2_map1 list_all2_map2 list_all2_same case_prod_beta)
qed

lemma university_forget:
  "fmmap (\<lambda>u. u\<lparr>un_created_at := None\<rparr>) (merge_node k new_university (set_university t1) m)
 = fmmap (\<lambda>u. u\<lparr>un_created_at := None\<rparr>) (merge_node k new_university (set_university t2) m)"
  by (simp add: fmmap_merge_node set_university_def)

lemma forget_populate_neo4j:
  "forget_created_at (populate_neo4j d c1 E g) = forget_created_at (populate_neo4j d c2 E g)"
proof (cases d)
  case True
  then have d: "d = True" by simp
  show ?thesis
    unfolding d populate_neo4j_form forget_created_at_def
    using university_forget [of "''Utah Tech University''" "c1 0" "universities g" "c2 0"]
      apply_writes_forget [OF department_writes_forget [of c1 "ds_of E" c2] refl,
        of new_department "department_nodes g"]
      apply_writes_forget [OF course_writes_forget [of c1 "cs_of E" c2] refl,
        of new_course "course_nodes g"]
      apply_writes_forget [OF program_writes_forget [of c1 "ps_of E" c2] refl,
        of new_program "program_nodes g"]
    by simp
next
  case False
  then show ?thesis by (simp add: populate_neo4j_def)
qed

lemma forget_relationships:
  "forget_created_at (g\<lparr>relationships := R\<rparr>) = (forget_created_at g)\<lparr>relationships := R\<rparr>"
  by (simp add: forget_created_at_def)

lemma forget_populate:
  "forget_created_at (populate d c1 E g) = forget_created_at (populate d c2 E g)"
proof -
  obtain D where cr:
    "\<And>g. create_relationships d E g = g\<lparr>relationships := relationships g |\<union>| D (key_sets g)\<rparr>"
    using create_relationships_form [of d E] by blast
  show ?thesis
    unfolding populate_def cr forget_relationships
    using key_sets_populate_neo4j [of d c1 E g c2] forget_populate_neo4j [of d c1 E g c2]
    by simp
qed

lemma node_count_forget: "node_count (forget_created_at g) = node_count g"
  by (simp add: node_count_def forget_created_at_def)

lemma relationship_count_forget: "relationship_count (forget_created_at g) = relationship_count g"
  by (simp add: relationship_count_def forget_created_at_def)

text \<open>
  C1, as the code has it. Running the populate step a second time on the same entity
  collections leaves the graph that one run at the time of the second run leaves: the
  second run creates no node and no relationship, and all it changes is \<^verbatim>\<open>created_at\<close>,
  which every \<^verbatim>\<open>MERGE ... SET\<close> statement overwrites with the time it runs at. So the
  graph after two runs and the graph after one run have the same nodes, the same
  properties but \<^verbatim>\<open>created_at\<close>, the same relationships and the same counts. This holds
  from any graph \<open>g\<close>, for any clocks \<open>c1\<close> and \<open>c2\<close> of the two runs, with or without a
  driver.
\<close>

theorem populate_twice_is_populate_later:
  "populate d c2 E (populate d c1 E g) = populate d c2 E g
   \<and> forget_created_at (populate d c2 E (populate d c1 E g)) = forget_created_at (populate d c1 E g)
   \<and> node_count (populate d c2 E (populate d c1 E g)) = node_count (populate d c1 E g)
   \<and> relationship_count (populate d c2 E (populate d c1 E g)) = relationship_count (populate d c1 E g)"
proof -
  have 1: "populate d c2 E (populate d c1 E g) = populate d c2 E g"
    by (rule populate_twice)
  have 2: "forget_created_at (populate d c2 E (populate d c1 E g)) = forget_created_at (populate d c1 E g)"
    unfolding 1 by (rule forget_populate)
  have 3: "node_count (populate d c2 E (populate d c1 E g)) = node_count (populate d c1 E g)"
    using arg_cong [OF 2, of node_count] by (simp only: node_count_forget)
  have 4: "relationship_count (populate d c2 E (populate d c1 E g)) = relationship_count (populate d c1 E g)"
    using arg_cong [OF 2, of relationship_count] by (simp only: relationship_count_forget)
  from 1 2 3 4 show ?thesis by blast
qed

lemma catalog_once_created_at:
  "map_option cn_created_at
     (fmlookup (course_nodes (populate True (\<lambda>i. 100 + i) catalog_example empty_graph))
        ''CS 1400'') = Some (Some 102)"
  by code_simp

lemma catalog_twice_created_at:
  "map_option cn_created_at
     (fmlookup (course_nodes (populate True (\<lambda>i. 200 + i) catalog_example
                               (populate True (\<lambda>i. 100 + i) catalog_example empty_graph)))
        ''CS 1400'') = Some (Some 202)"
  by code_simp

text \<open>
  The claim as stated, with the same properties on every node, fails: a first run whose
  statements run at the times 100, 101, ... and a second run at 200, 201, ... on a
  catalog of three courses, a department and a program leave the course \<^verbatim>\<open>CS 1400\<close> with
  \<^verbatim>\<open>created_at = 202\<close>, where the first run alone left 102.
\<close>

theorem populate_twice_changes_created_at:
  "populate True (\<lambda>i. 200 + i) catalog_example
     (populate True (\<lambda>i. 100 + i) catalog_example empty_graph)
   \<noteq> populate True (\<lambda>i. 100 + i) catalog_example empty_graph"
proof
  assume "populate True (\<lambda>i. 200 + i) catalog_example
            (populate True (\<lambda>i. 100 + i) catalog_example empty_graph)
          = populate True (\<lambda>i. 100 + i) catalog_example empty_graph"
  then have "map_option cn_created_at
      (fmlookup (course_nodes (populate True (\<lambda>i. 200 + i) catalog_example
                                (populate True (\<lambda>i. 100 + i) catalog_example empty_graph)))
         ''CS 1400'')
    = map_option cn_created_at
      (fmlookup (course_nodes (populate True (\<lambda>i. 100 + i) catalog_example empty_graph))
         ''CS 1400'')"
    by simp
  then show False
    unfolding catalog_once_created_at catalog_twice_created_at by simp
qed

section \<open>Truncated program names\<close>

lemma program_records_names:
  "pr_program_name ` set (program_records ps seen recs) =
   pr_program_name ` set recs \<union> ((\<lambda>p. take 500 (p_name p)) ` set ps - seen)"
  by (induction ps seen recs rule: program_records.induct) (auto simp: Let_def)

lemma program_records_distinct:
  "distinct (map pr_program_name recs) \<Longrightarrow> pr_program_name ` set recs \<subseteq> seen \<Longrightarrow>
   distinct (map pr_program_name (program_records ps seen recs))"
proof (induction ps seen recs rule: program_records.induct)
  case (1 seen recs)
  then show ?case by simp
next
  case (2 p rest seen recs)
  show ?case
  proof (cases "take 500 (p_name p) \<in> seen")
    case True
    with 2 show ?thesis by simp
  next
    case False
    with 2 show ?thesis by (auto simp: Let_def)
  qed
qed

lemma program_records_append:
  "program_records (ps @ qs) seen recs =
   program_records qs (seen \<union> (\<lambda>p. take 500 (p_name p)) ` set ps) (program_records ps seen recs)"
proof (induction ps seen recs rule: program_records.induct)
  case (1 seen recs)
  then show ?case by simp
next
  case (2 p rest seen recs)
  show ?case
  proof (cases "take 500 (p_name p) \<in> seen")
    case True
    then have "seen \<union> (\<lambda>p. take 500 (p_name p)) ` set (p # rest)
             = seen \<union> (\<lambda>p. take 500 (p_name p)) ` set rest" by auto
    with True 2 show ?thesis by (simp add: Let_def)
  next
    case False
    have "insert (take 500 (p_name p)) seen \<union> (\<lambda>p. take 500 (p_name p)) ` set rest
        = seen \<union> (\<lambda>p. take 500 (p_name p)) ` set (p # rest)" by auto
    with False 2 show ?thesis by (simp add: Let_def)
  qed
qed

lemma program_records_skip:
  assumes "p \<in> set before" and "take 500 (p_name q) = take 500 (p_name p)"
  shows "program_records (before @ q # after) {} [] = program_records (before @ after) {} []"
proof -
  have "take 500 (p_name q) \<in> {} \<union> (\<lambda>p. take 500 (p_name p)) ` set before"
    using assms by auto
  then show ?thesis
    by (simp add: program_records_append [of before] Let_def)
qed

lemma concat_batches: "concat (batches xs) = xs"
proof (induction xs rule: batches.induct)
  case (1 records)
  show ?case
  proof (cases "records = []")
    case True
    then show ?thesis by (subst batches.simps) simp
  next
    case False
    with 1 have "concat (batches (drop 100 records)) = drop 100 records" by simp
    with False show ?thesis by (subst batches.simps) simp
  qed
qed

lemma fold_upsert_programs:
  "academic_programs (fold (\<lambda>batch db. db\<lparr>academic_programs := academic_programs db @ batch\<rparr>) bs db)
   = academic_programs db @ concat bs"
  by (induction bs arbitrary: db) simp_all

lemma fold_upsert_courses:
  "academic_programs (fold (\<lambda>batch db. db\<lparr>academic_courses := academic_courses db @ batch\<rparr>) bs db)
   = academic_programs db"
  by (induction bs arbitrary: db) simp_all

lemma academic_programs_populated:
  "academic_programs (populate_supabase_tables E db) =
   filter (\<lambda>r. pr_program_name r = []) (academic_programs db) @ program_rows E"
proof (cases "ad_programs E = []")
  case True
  then show ?thesis
    by (simp add: populate_supabase_tables_def Let_def program_rows_def fold_upsert_courses)
next
  case False
  then show ?thesis
    by (simp add: populate_supabase_tables_def Let_def program_rows_def fold_upsert_programs
        fold_upsert_courses concat_batches)
qed

text \<open>
  C9. \<^verbatim>\<open>_populate_supabase_tables\<close> stores, for every program, the first 500 characters
  of its name as \<^verbatim>\<open>program_name\<close>, once: the program table after the run holds the rows
  that survived the delete and then the rows of this run, the stored names are exactly
  the names cut to 500 characters, no stored name occurs twice, and a program \<open>q\<close> whose
  name agrees on the first 500 characters with an earlier program \<open>p\<close> is skipped (the
  rows are those of the run without \<open>q\<close>).
\<close>

theorem program_name_truncation:
  assumes "ad_programs E = before @ (k, q) # after"
    and "p \<in> snd ` set before"
    and "take 500 (p_name q) = take 500 (p_name p)"
  shows "academic_programs (populate_supabase_tables E db) =
           filter (\<lambda>r. pr_program_name r = []) (academic_programs db) @ program_rows E
       \<and> pr_program_name ` set (program_rows E) = (\<lambda>p. take 500 (p_name p)) ` snd ` set (ad_programs E)
       \<and> distinct (map pr_program_name (program_rows E))
       \<and> program_rows E = program_rows (E\<lparr>ad_programs := before @ after\<rparr>)"
proof (intro conjI)
  show "academic_programs (populate_supabase_tables E db) =
           filter (\<lambda>r. pr_program_name r = []) (academic_programs db) @ program_rows E"
    by (rule academic_programs_populated)
  show "pr_program_name ` set (program_rows E) = (\<lambda>p. take 500 (p_name p)) ` snd ` set (ad_programs E)"
    by (simp add: program_rows_def program_records_names)
  show "distinct (map pr_program_name (program_rows E))"
    unfolding program_rows_def by (rule program_records_distinct) simp_all
  show "program_rows E = program_rows (E\<lparr>ad_programs := before @ after\<rparr>)"
    using program_records_skip [of p "map snd before" q "map snd after"] assms
    by (simp add: program_rows_def)
qed

lemma long_names_facts:
  "length long_name_1 = 600" "length long_name_2 = 600" "long_name_1 \<noteq> long_name_2"
  "take 500 long_name_2 = take 500 long_name_1"
proof -
  have "long_name_1 ! 599 = CHR ''x''" "long_name_2 ! 599 = CHR ''y''"
    by (simp_all add: long_name_1_def long_name_2_def nth_append)
  then show "long_name_1 \<noteq> long_name_2" by auto
qed (simp_all add: long_name_1_def long_name_2_def)

lemma long_names_rows:
  "program_rows (long_names_example\<lparr>ad_programs := [(long_name_1, long_program long_name_1)]\<rparr>)
   = [\<lparr>pr_program_name = take 500 long_name_1, pr_program_type = ''Bachelor'',
        pr_level = ''undergraduate'', pr_description = Some (take 1000 (long_name_1 @ '' program'')),
        pr_source_id = ''catalog.utahtech.edu''\<rparr>]"
  by (simp add: program_rows_def long_names_example_def long_program_def truncate_or_none_def)

text \<open>Two programs with different names of 600 characters that agree on the first 500:
  one row is stored, under the 500 characters.\<close>

theorem program_name_truncation_witness:
  "length long_name_1 = 600 \<and> length long_name_2 = 600 \<and> long_name_1 \<noteq> long_name_2
   \<and> take 500 long_name_2 = take 500 long_name_1
   \<and> academic_programs (populate_supabase_tables long_names_example
        \<lparr>academic_departments = [], academic_courses = [], academic_programs = []\<rparr>)
     = [\<lparr>pr_program_name = take 500 long_name_1, pr_program_type = ''Bachelor'',
        pr_level = ''undergraduate'', pr_description = Some (take 1000 (long_name_1 @ '' program'')),
        pr_source_id = ''catalog.utahtech.edu''\<rparr>]
   \<and> length (take 500 long_name_1) = 500"
proof -
  have a: "ad_programs long_names_example =
        [(long_name_1, long_program long_name_1)] @ (long_name_2, long_program long_name_2) # []"
    by (simp add: long_names_example_def)
  have b: "long_program long_name_1 \<in> snd ` set [(long_name_1, long_program long_name_1)]"
    by simp
  have c: "take 500 (p_name (long_program long_name_2)) = take 500 (p_name (long_program long_name_1))"
    by (simp add: long_program_def long_names_facts)
  note t = program_name_truncation [OF a b c,
      of "\<lparr>academic_departments = [], academic_courses = [], academic_programs = []\<rparr>"]
  have "academic_programs (populate_supabase_tables long_names_example
        \<lparr>academic_departments = [], academic_courses = [], academic_programs = []\<rparr>)
     = program_rows (long_names_example\<lparr>ad_programs := [(long_name_1, long_program long_name_1)] @ []\<rparr>)"
    using t by simp
  then show ?thesis
    using long_names_facts long_names_rows by simp
qed

section \<open>Validation of a course sequence\<close>

lemma collect_course_info_lookup_gen:
  assumes "\<And>c. map_of acc c = (if c \<in> S then map_option details_of (course_query g c) else None)"
  shows "map_of (fold (\<lambda>course_code course_info.
             case course_query g course_code of
               None \<Rightarrow> course_info
             | Some record \<Rightarrow> AList.update course_code (details_of record) course_info) xs acc) c
         = (if c \<in> S \<union> set xs then map_option details_of (course_query g c) else None)"
  using assms
proof (induction xs arbitrary: acc S)
  case Nil
  then show ?case by simp
next
  case (Cons x xs)
  let ?acc = "case course_query g x of None \<Rightarrow> acc
              | Some record \<Rightarrow> AList.update x (details_of record) acc"
  have "map_of ?acc c = (if c \<in> insert x S then map_option details_of (course_query g c) else None)"
    for c
    using Cons.prems [of c] by (auto simp: update_conv' split: option.splits)
  from Cons.IH [of ?acc "insert x S", OF this] show ?case by simp
qed

lemma collect_course_info_lookup:
  "map_of (collect_course_info g codes) c =
   (if c \<in> set codes then map_option details_of (course_query g c) else None)"
  unfolding collect_course_info_def
  using collect_course_info_lookup_gen [of "[]" "{}" g codes c] by simp

lemma check_prerequisites_expected:
  assumes "\<And>c. c \<in> set codes \<Longrightarrow> map_of info c = map_option details_of (course_query g c)"
    and "codes = pre @ rest"
    and "completed = earlier_courses g codes (length pre)"
  shows "check_prerequisites info rest completed vs =
         vs @ List.map_filter (expected_violation g codes) [length pre..<length codes]"
  using assms(2,3)
proof (induction rest arbitrary: pre completed vs)
  case Nil
  then show ?case by (simp add: map_filter_simps)
next
  case (Cons x rest)
  have x: "codes ! length pre = x" using Cons.prems(1) by simp
  have len: "length pre < length codes" using Cons.prems(1) by simp
  have upt: "[length pre..<length codes] = length pre # [length (pre @ [x])..<length codes]"
    using len by (simp add: upt_conv_Cons)
  have info: "map_of info x = map_option details_of (course_query g x)"
    using assms(1) Cons.prems(1) by simp
  have tk: "take (Suc (length pre)) codes = pre @ [x]"
    using Cons.prems(1) by simp
  have pre: "take (length pre) codes = pre"
    using Cons.prems(1) by simp
  show ?case
  proof (cases "course_query g x")
    case None
    have "earlier_courses g codes (length (pre @ [x])) = completed"
      using None Cons.prems(2) by (simp add: earlier_courses_def tk pre)
    from Cons.IH [of "pre @ [x]" completed vs] this Cons.prems(1)
    have "check_prerequisites info rest completed vs =
          vs @ List.map_filter (expected_violation g codes) [length (pre @ [x])..<length codes]"
      by simp
    moreover have "expected_violation g codes (length pre) = None"
      using None x by (simp add: expected_violation_def)
    ultimately show ?thesis
      using None info unfolding upt
      by (simp add: map_filter_simps)
  next
    case (Some r)
    have e: "earlier_courses g codes (length (pre @ [x])) = insert x completed"
      using Some Cons.prems(2) by (auto simp: earlier_courses_def tk pre)
    have ih: "check_prerequisites info rest (insert x completed) vs' =
          vs' @ List.map_filter (expected_violation g codes) [length (pre @ [x])..<length codes]"
      for vs'
      using Cons.IH [of "pre @ [x]" "insert x completed" vs'] e Cons.prems(1) by simp
    let ?missing = "filter (\<lambda>p. p \<notin> completed) (truthy_codes (r_prerequisites r))"
    have ev: "expected_violation g codes (length pre) =
        (if ?missing = [] then None
         else Some \<lparr>v_course = x, v_missing_prerequisites = ?missing,
                     v_message = x @ '' requires '' @ join '', '' ?missing
                                 @ '' which are not completed yet''\<rparr>)"
      using Some x Cons.prems(2) by (simp add: expected_violation_def Let_def)
    show ?thesis
      using Some info unfolding upt
      by (simp add: map_filter_simps ev ih details_of_def Let_def)
  qed
qed

lemma violations_expected:
  "val_violations (validate_course_sequence g codes) = expected_violations g codes"
proof -
  have "check_prerequisites (collect_course_info g codes) codes {} [] =
        [] @ List.map_filter (expected_violation g codes) [length ([]::string list)..<length codes]"
    by (rule check_prerequisites_expected)
       (simp_all add: collect_course_info_lookup earlier_courses_def)
  then show ?thesis
    by (simp add: validate_course_sequence_def Let_def expected_violations_def)
qed

lemma valid_iff_no_violations:
  "val_valid (validate_course_sequence g codes)
   = (val_violations (validate_course_sequence g codes) = [])"
  by (simp add: validate_course_sequence_def Let_def)

lemma upt_3: "[0..<3] = [0, 1, 2]"
  by (simp add: upt_rec)

text \<open>
  C6. \<^verbatim>\<open>validate_course_sequence\<close> reports exactly the violations of the direct
  prerequisites against the courses at earlier positions. When \<^verbatim>\<open>CS 2420\<close> requires
  \<^verbatim>\<open>CS 1410\<close>, which requires \<^verbatim>\<open>CS 1400\<close>, the list \<^verbatim>\<open>CS 2420, CS 1400, CS 1410\<close> has one
  violation, on \<^verbatim>\<open>CS 2420\<close> with \<^verbatim>\<open>CS 1410\<close> missing, and the list
  \<^verbatim>\<open>CS 1400, CS 1410, CS 2420\<close> has none.
\<close>

theorem validation_checks_direct_prerequisites:
  "val_violations (validate_course_sequence g course_codes) = expected_violations g course_codes
   \<and> val_valid (validate_course_sequence g course_codes) = (expected_violations g course_codes = [])
   \<and> (chain_prerequisites g \<longrightarrow>
        val_violations (validate_course_sequence g [''CS 2420'', ''CS 1400'', ''CS 1410''])
          = [\<lparr>v_course = ''CS 2420'', v_missing_prerequisites = [''CS 1410''],
               v_message = ''CS 2420 requires CS 1410 which are not completed yet''\<rparr>]
        \<and> val_violations (validate_course_sequence g [''CS 1400'', ''CS 1410'', ''CS 2420'']) = []
        \<and> val_valid (validate_course_sequence g [''CS 1400'', ''CS 1410'', ''CS 2420'']))"
proof (intro conjI impI)
  show "val_violations (validate_course_sequence g course_codes) = expected_violations g course_codes"
    by (rule violations_expected)
  show "val_valid (validate_course_sequence g course_codes)
        = (expected_violations g course_codes = [])"
    by (simp add: valid_iff_no_violations violations_expected)
  assume "chain_prerequisites g"
  then obtain r1 r2 r3 where
    q: "course_query g ''CS 2420'' = Some r1" "course_query g ''CS 1410'' = Some r2"
       "course_query g ''CS 1400'' = Some r3"
    and p: "r_prerequisites r1 = [''CS 1410'']" "r_prerequisites r2 = [''CS 1400'']"
           "r_prerequisites r3 = []"
    by (auto simp: chain_prerequisites_def)
  show "val_violations (validate_course_sequence g [''CS 2420'', ''CS 1400'', ''CS 1410''])
          = [\<lparr>v_course = ''CS 2420'', v_missing_prerequisites = [''CS 1410''],
               v_message = ''CS 2420 requires CS 1410 which are not completed yet''\<rparr>]"
    unfolding violations_expected
    by (simp add: expected_violations_def upt_3 map_filter_simps expected_violation_def
        earlier_courses_def truthy_codes_def q p)
  have ok: "expected_violations g [''CS 1400'', ''CS 1410'', ''CS 2420''] = []"
    by (simp add: expected_violations_def upt_3 map_filter_simps expected_violation_def
        earlier_courses_def truthy_codes_def q p)
  then show "val_violations (validate_course_sequence g [''CS 1400'', ''CS 1410'', ''CS 2420'']) = []"
    by (simp add: violations_expected)
  from ok show "val_valid (validate_course_sequence g [''CS 1400'', ''CS 1410'', ''CS 2420''])"
    by (simp add: valid_iff_no_violations violations_expected)
qed

text \<open>The graph that the builder makes of the example catalog has this chain.\<close>

lemma catalog_graph_chain: "chain_prerequisites catalog_graph"
  by code_simp

theorem validation_checks_direct_prerequisites_witness:
  "chain_prerequisites catalog_graph
   \<and> val_violations (validate_course_sequence catalog_graph [''CS 2420'', ''CS 1400'', ''CS 1410''])
       = [\<lparr>v_course = ''CS 2420'', v_missing_prerequisites = [''CS 1410''],
            v_message = ''CS 2420 requires CS 1410 which are not completed yet''\<rparr>]
   \<and> val_violations (validate_course_sequence catalog_graph [''CS 1400'', ''CS 1410'', ''CS 2420'']) = []
   \<and> val_valid (validate_course_sequence catalog_graph [''CS 1400'', ''CS 1410'', ''CS 2420''])"
  using validation_checks_direct_prerequisites [of catalog_graph "[]"] catalog_graph_chain
  by blast

section \<open>Degree progress\<close>






section \<open>The two spellings of the level\<close>

lemma course_level_cases: "extractor_level (course_level n)"
  by (simp add: course_level_def extractor_level_def)

lemma course_of_match_level:
  "course_of_match content mt = Inr (Some c) \<Longrightarrow> extractor_level (c_level c)"
  by (auto simp: course_of_match_def Let_def course_level_cases split: if_splits option.splits)

lemma set_update_subset: "set (AList.update k v al) \<subseteq> insert (k, v) (set al)"
  by (induction al) auto

lemma courses_loop_level:
  assumes "courses_loop content ms acc = Inr cs"
    and "\<And>k c. (k, c) \<in> set acc \<Longrightarrow> extractor_level (c_level c)"
    and "(k, c) \<in> set cs"
  shows "extractor_level (c_level c)"
  using assms
proof (induction ms arbitrary: acc)
  case Nil
  then show ?case by simp
next
  case (Cons mt ms)
  show ?case
  proof (cases "course_of_match content mt")
    case (Inl e)
    with Cons.prems(1) show ?thesis by simp
  next
    case (Inr r)
    show ?thesis
    proof (cases r)
      case None
      with Inr Cons show ?thesis by simp
    next
      case (Some c')
      have l: "extractor_level (c_level c')"
        using Inr Some by (simp add: course_of_match_level)
      have "courses_loop content ms (AList.update (c_code c') c' acc) = Inr cs"
        using Cons.prems(1) Inr Some by simp
      moreover have "extractor_level (c_level c'')"
        if "(k'', c'') \<in> set (AList.update (c_code c') c' acc)" for k'' c''
        using that set_update_subset [of "c_code c'" c' acc] l Cons.prems(2) by auto
      ultimately show ?thesis using Cons.IH Cons.prems(3) by blast
    qed
  qed
qed

lemma extracted_level:
  "extract_courses_from_content content url = Inr cs \<Longrightarrow> (k, c) \<in> set cs \<Longrightarrow>
   extractor_level (c_level c)"
  unfolding extract_courses_from_content_def
  by (rule courses_loop_level [where acc = "[]"]) simp_all

lemma extracted_courses_level:
  "extracted_courses E \<Longrightarrow> (k, c) \<in> set (ad_courses E) \<Longrightarrow> extractor_level (c_level c)"
  unfolding extracted_courses_def by (blast dest: extracted_level)

lemma apply_writes_pred:
  assumes "\<And>v. fmlookup m k = Some v \<Longrightarrow> Q v"
    and "\<And>k' f n. (k', f) \<in> set ws \<Longrightarrow> Q (f n)"
    and "fmlookup (apply_writes new ws m) k = Some v"
  shows "Q v"
  using assms
proof (induction ws arbitrary: m)
  case Nil
  then show ?case by simp
next
  case (Cons w ws)
  obtain k' f where w: "w = (k', f)" by (cases w)
  have "Q v'" if "fmlookup (merge_node k' new f m) k = Some v'" for v'
    using that Cons.prems(1) Cons.prems(2) [of k' f] w
    by (auto simp: merge_node_def split: if_splits)
  moreover have "Q (f' n)" if "(k'', f') \<in> set ws" for k'' f' n
    using that Cons.prems(2) by auto
  moreover have "fmlookup (apply_writes new ws (merge_node k' new f m)) k = Some v"
    using Cons.prems(3) w by simp
  ultimately show ?case by (rule Cons.IH)
qed

lemma course_nodes_populate:
  "course_nodes (populate True clock E g) =
   apply_writes new_course (course_writes clock (cs_of E)) (course_nodes g)"
proof -
  obtain D where
    "\<And>g. create_relationships True E g = g\<lparr>relationships := relationships g |\<union>| D (key_sets g)\<rparr>"
    using create_relationships_form [of True E] by blast
  then show ?thesis by (simp add: populate_def populate_neo4j_form)
qed

lemma course_nodes_populate_off: "course_nodes (populate False clock E g) = course_nodes g"
  by (simp add: populate_def populate_neo4j_def create_relationships_def)

lemma builder_levels_populate_on:
  assumes "extracted_courses E" and "builder_levels g"
  shows "builder_levels (populate True clock E g)"
proof -
  have w: "\<exists>level. cn_level (f n) = Some level \<and> extractor_level level"
    if "(k, f) \<in> set (course_writes clock (cs_of E))" for k f n
  proof -
    from that obtain i c where "(i, c) \<in> set (cs_of E)" and f: "f = set_course (clock i) c"
      by (auto simp: course_writes_def)
    then have "c \<in> snd ` set (ad_courses E)"
      by (auto simp: cs_of_def in_set_enumerate_eq)
    then have "extractor_level (c_level c)"
      using assms(1) by (auto dest: extracted_courses_level)
    then show ?thesis by (simp add: f set_course_def)
  qed
  have old: "\<exists>level. cn_level v = Some level \<and> extractor_level level"
    if "fmlookup (course_nodes g) k = Some v" for k v
    using that assms(2) by (simp add: builder_levels_def)
  have "\<exists>level. cn_level node = Some level \<and> extractor_level level"
    if "fmlookup (apply_writes new_course (course_writes clock (cs_of E)) (course_nodes g)) code
          = Some node" for code node
    using old w that
    by (rule apply_writes_pred [where Q = "\<lambda>v. \<exists>level. cn_level v = Some level \<and> extractor_level level"])
  then show ?thesis
    by (simp add: builder_levels_def course_nodes_populate)
qed

lemma builder_levels_populate:
  assumes "extracted_courses E" and "builder_levels g"
  shows "builder_levels (populate d clock E g)"
proof (cases d)
  case False
  with assms(2) show ?thesis by (simp add: builder_levels_def course_nodes_populate_off)
next
  case True
  with builder_levels_populate_on [OF assms] show ?thesis by simp
qed

lemma course_query_level:
  assumes "builder_levels g" and "course_query g code = Some r"
  shows "r_level r \<noteq> Some ''upper-division''"
proof -
  from assms(2) obtain node where n: "fmlookup (course_nodes g) code = Some node"
    and r: "r_level r = cn_level node"
    by (auto simp: course_query_def split: option.splits)
  from assms(1) n obtain level where "cn_level node = Some level" "extractor_level level"
    by (auto simp: builder_levels_def)
  then show ?thesis by (auto simp: r extractor_level_def)
qed

lemma collect_course_info_level:
  assumes "builder_levels g" and "(k, info) \<in> set (collect_course_info g codes)"
  shows "cs_level info \<noteq> Some ''upper-division''"
proof -
  have "map_of (collect_course_info g codes) k' = Some info' \<Longrightarrow>
        cs_level info' \<noteq> Some ''upper-division''" for k' info'
    using course_query_level [OF assms(1)]
    by (auto simp: collect_course_info_lookup details_of_def split: if_splits)
  moreover have "distinct (map fst (collect_course_info g codes))"
    unfolding collect_course_info_def
    by (rule fold_invariant [where Q = "\<lambda>_. True"])
       (auto simp: distinct_update split: option.splits)
  ultimately show ?thesis using assms(2) by (metis map_of_is_SomeI)
qed

lemma collect_summaries_lookup_gen:
  assumes "\<And>c. map_of acc c = (if c \<in> S then map_option summary_of (course_query g c) else None)"
  shows "map_of (fold (\<lambda>course_code course_info.
             case course_query g course_code of
               None \<Rightarrow> course_info
             | Some record \<Rightarrow> AList.update course_code (summary_of record) course_info) xs acc) c
         = (if c \<in> S \<union> set xs then map_option summary_of (course_query g c) else None)"
  using assms
proof (induction xs arbitrary: acc S)
  case Nil
  then show ?case by simp
next
  case (Cons x xs)
  let ?acc = "case course_query g x of None \<Rightarrow> acc
              | Some record \<Rightarrow> AList.update x (summary_of record) acc"
  have "map_of ?acc c = (if c \<in> insert x S then map_option summary_of (course_query g c) else None)"
    for c
    using Cons.prems [of c] by (auto simp: update_conv' split: option.splits)
  from Cons.IH [of ?acc "insert x S", OF this] show ?case by simp
qed

lemma collect_summaries_lookup:
  "map_of (collect_summaries g codes) c =
   (if c \<in> set codes then map_option summary_of (course_query g c) else None)"
  unfolding collect_summaries_def
  using collect_summaries_lookup_gen [of "[]" "{}" g codes c] by simp

lemma upper_division_sum_none:
  "(\<And>info. info \<in> set infos \<Longrightarrow> cs_level info \<noteq> Some ''upper-division'') \<Longrightarrow>
   upper_division_sum infos = 0"
  by (simp add: upper_division_sum_def filter_False)

lemma known_level:
  assumes "builder_levels g" and "info \<in> set (known (collect_summaries g all_codes) codes)"
  shows "cs_level info \<noteq> Some ''upper-division''"
proof -
  from assms(2) obtain c where "map_of (collect_summaries g all_codes) c = Some info"
    by (auto simp: known_def List.map_filter_def)
  then show ?thesis
    using course_query_level [OF assms(1)]
    by (auto simp: collect_summaries_lookup summary_of_def split: if_splits)
qed

lemma validate_upper_division_zero:
  assumes "builder_levels g"
  shows "st_upper_division_credits (val_statistics (validate_course_sequence g course_codes)) = 0"
proof -
  have "upper_division_sum (map snd (collect_course_info g course_codes)) = 0"
    by (rule upper_division_sum_none) (use collect_course_info_level [OF assms] in auto)
  then show ?thesis by (simp add: validate_course_sequence_def Let_def)
qed

lemma analyze_upper_division_zero:
  assumes "builder_levels g"
  shows "completed_upper_division_credits (analyze_degree_progress g completed target) = 0"
    and "remaining_upper_division_credits (analyze_degree_progress g completed target) = 0"
    and "totals_upper_division_credits (analyze_degree_progress g completed target) = 0"
proof -
  have "upper_division_sum (known (collect_summaries g all_codes) codes) = 0" for all_codes codes
    by (rule upper_division_sum_none) (use known_level [OF assms] in auto)
  then show
    "completed_upper_division_credits (analyze_degree_progress g completed target) = 0"
    "remaining_upper_division_credits (analyze_degree_progress g completed target) = 0"
    "totals_upper_division_credits (analyze_degree_progress g completed target) = 0"
    by (simp_all add: analyze_degree_progress_def Let_def)
qed

text \<open>
  C10. The course extractor spells the level \<^verbatim>\<open>lower_division\<close> or \<^verbatim>\<open>upper_division\<close>,
  with an underscore (the graduate branch is never taken); the planner adds up the
  credits of the courses whose level is \<^verbatim>\<open>upper-division\<close>, with a hyphen. So on a graph
  whose course levels the builder wrote from extracted courses (built from the empty
  graph or from another such graph), the upper-division credits of
  \<^verbatim>\<open>validate_course_sequence\<close> and of \<^verbatim>\<open>analyze_degree_progress\<close> are 0, whatever courses
  are given.
\<close>

theorem upper_division_credits_always_zero:
  assumes "extracted_courses academic_data"
    and "builder_levels g0"
    and "g = populate has_driver clock academic_data g0"
  shows "(\<forall>(code, course_info) \<in> set (ad_courses academic_data).
            c_level course_info = ''lower_division'' \<or> c_level course_info = ''upper_division'')
       \<and> builder_levels g
       \<and> st_upper_division_credits (val_statistics (validate_course_sequence g course_codes)) = 0
       \<and> completed_upper_division_credits (analyze_degree_progress g completed target) = 0
       \<and> remaining_upper_division_credits (analyze_degree_progress g completed target) = 0
       \<and> totals_upper_division_credits (analyze_degree_progress g completed target) = 0"
proof -
  have l: "\<forall>(code, course_info) \<in> set (ad_courses academic_data).
            c_level course_info = ''lower_division'' \<or> c_level course_info = ''upper_division''"
    using extracted_courses_level [OF assms(1)] by (auto simp: extractor_level_def)
  have b: "builder_levels g"
    unfolding assms(3) using assms(1,2) by (rule builder_levels_populate)
  from l b validate_upper_division_zero [OF b] analyze_upper_division_zero [OF b]
  show ?thesis by blast
qed

text \<open>From the page to the plan: the extractor reads \<^verbatim>\<open>CS 3150\<close> as \<^verbatim>\<open>upper_division\<close>, the
  builder writes it, and the planner counts 7 credits, none of them upper-division.\<close>

lemma networks_page_courses:
  "extract_courses_from_content networks_page ''https://catalog.utahtech.edu/courses/cs/''
   = Inr (ad_courses networks_catalog)"
  by code_simp

lemma networks_catalog_extracted: "extracted_courses networks_catalog"
  unfolding extracted_courses_def using networks_page_courses by blast

lemma empty_graph_levels: "builder_levels empty_graph"
  by (simp add: builder_levels_def empty_graph_def)

lemma networks_credits:
  "st_total_credits (val_statistics
     (validate_course_sequence networks_graph [''CS 1400'', ''CS 3150''])) = 7"
  by code_simp

theorem upper_division_credits_always_zero_witness:
  "extract_courses_from_content networks_page ''https://catalog.utahtech.edu/courses/cs/''
     = Inr (ad_courses networks_catalog)
   \<and> map (\<lambda>(code, c). (code, c_level c)) (ad_courses networks_catalog)
       = [(''CS 1400'', ''lower_division''), (''CS 3150'', ''upper_division'')]
   \<and> st_total_credits (val_statistics
        (validate_course_sequence networks_graph [''CS 1400'', ''CS 3150''])) = 7
   \<and> st_upper_division_credits (val_statistics
        (validate_course_sequence networks_graph [''CS 1400'', ''CS 3150''])) = 0
   \<and> totals_upper_division_credits
        (analyze_degree_progress networks_graph [''CS 3150''] [''CS 1400'']) = 0"
  using upper_division_credits_always_zero [OF networks_catalog_extracted empty_graph_levels
      networks_graph_def, of "[''CS 1400'', ''CS 3150'']" "[''CS 3150'']" "[''CS 1400'']"]
    networks_page_courses networks_credits
  by (simp add: networks_catalog_def)

section \<open>The recommended sequence\<close>

text \<open>The dictionary \<^verbatim>\<open>in_degree\<close> keeps the courses as its keys, in their order; the two
  loops before the \<^verbatim>\<open>while\<close> loop leave in it, for every course, the number of its
  prerequisites among the courses.\<close>

lemma update_fresh: "k \<notin> fst ` set al \<Longrightarrow> AList.update k v al = al @ [(k, v)]"
  by (induction al) auto

lemma initial_in_degree_tab:
  assumes "distinct cs"
  shows "initial_in_degree cs = tab cs (\<lambda>_. 0)"
proof -
  have "distinct xs \<Longrightarrow> set xs \<inter> fst ` set acc = {} \<Longrightarrow>
        fold (\<lambda>course in_degree. AList.update course 0 in_degree) xs acc
        = acc @ map (\<lambda>c. (c, 0)) xs" for xs and acc :: "(string \<times> int) list"
  proof (induction xs arbitrary: acc)
    case Nil
    then show ?case by simp
  next
    case (Cons x xs)
    have u: "AList.update x 0 acc = acc @ [(x, 0)]"
      using Cons.prems(2) by (intro update_fresh) auto
    have "set xs \<inter> fst ` set (acc @ [(x, 0)]) = {}"
      using Cons.prems by auto
    with Cons.IH [of "acc @ [(x, 0)]"] Cons.prems(1) show ?case by (simp add: u)
  qed
  from this [of cs "[]"] assms show ?thesis
    by (simp add: initial_in_degree_def tab_def)
qed

lemma update_tab:
  "distinct cs \<Longrightarrow> AList.update c v (tab cs f) = (if c \<in> set cs then tab cs (f(c := v)) else tab cs f @ [(c, v)])"
proof (induction cs)
  case Nil
  then show ?case by (simp add: tab_def)
next
  case (Cons x cs)
  then show ?case
    by (auto simp: tab_def)
qed

lemma degree_of_tab: "degree_of (tab cs f) c = (if c \<in> set cs then f c else 0)"
  by (induction cs) (auto simp: tab_def degree_of_def)

lemma keys_tab: "fst ` set (tab cs f) = set cs"
  by (force simp: tab_def)

lemma count_inner:
  assumes "distinct cs" "c \<in> set cs"
  shows "fold (\<lambda>prereq in_degree.
                 if prereq \<in> fst ` set in_degree
                 then AList.update c (degree_of in_degree c + 1) in_degree
                 else in_degree) ps (tab cs f)
         = tab cs (f(c := f c + int (length (filter (\<lambda>p. p \<in> set cs) ps))))"
proof (induction ps arbitrary: f)
  case Nil
  then show ?case by simp
next
  case (Cons p ps)
  show ?case
  proof (cases "p \<in> set cs")
    case True
    let ?step = "\<lambda>prereq in_degree.
                 if prereq \<in> fst ` set in_degree
                 then AList.update c (degree_of in_degree c + 1) in_degree
                 else in_degree"
    have "fold ?step (p # ps) (tab cs f) = fold ?step ps (tab cs (f(c := f c + 1)))"
      using assms True by (simp add: keys_tab update_tab degree_of_tab)
    also have "\<dots> = tab cs ((f(c := f c + 1))
                 (c := (f(c := f c + 1)) c + int (length (filter (\<lambda>p. p \<in> set cs) ps))))"
      by (rule Cons.IH)
    also have "(f(c := f c + 1))
                 (c := (f(c := f c + 1)) c + int (length (filter (\<lambda>p. p \<in> set cs) ps)))
               = f(c := f c + int (length (filter (\<lambda>p. p \<in> set cs) (p # ps))))"
      using True by (simp add: fun_eq_iff)
    finally show ?thesis .
  next
    case False
    then show ?thesis
      using Cons.IH [of f] by (simp add: keys_tab)
  qed
qed

lemma count_outer:
  assumes "distinct cs"
  shows "distinct xs \<Longrightarrow> set xs \<subseteq> set cs \<Longrightarrow>
         count_in_degree xs pg (tab cs f)
         = tab cs (\<lambda>c. if c \<in> set xs
                        then f c + int (length (filter (\<lambda>p. p \<in> set cs) (prereqs_of pg c)))
                        else f c)"
proof (induction xs arbitrary: f)
  case Nil
  then show ?case by (simp add: count_in_degree_def)
next
  case (Cons x xs)
  let ?n = "\<lambda>c. int (length (filter (\<lambda>p. p \<in> set cs) (prereqs_of pg c)))"
  have x: "x \<in> set cs" "x \<notin> set xs" "distinct xs" "set xs \<subseteq> set cs"
    using Cons.prems by auto
  have "count_in_degree (x # xs) pg (tab cs f)
        = count_in_degree xs pg (tab cs (f(x := f x + ?n x)))"
    by (simp add: count_in_degree_def count_inner [OF assms x(1)])
  also have "\<dots> = tab cs (\<lambda>c. if c \<in> set xs then (f(x := f x + ?n x)) c + ?n c
                               else (f(x := f x + ?n x)) c)"
    by (rule Cons.IH [OF x(3,4)])
  also have "\<dots> = tab cs (\<lambda>c. if c \<in> set (x # xs) then f c + ?n c else f c)"
    using x(2) by (auto simp: tab_def)
  finally show ?case .
qed

lemma count_in_degree_tab:
  assumes "distinct cs" "\<forall>c\<in>set cs. distinct (prereqs_of pg c)"
  shows "count_in_degree cs pg (initial_in_degree cs)
         = tab cs (\<lambda>c. int (card (needed cs pg c)))"
proof -
  have "length (filter (\<lambda>p. p \<in> set cs) (prereqs_of pg c)) = card (needed cs pg c)"
    if "c \<in> set cs" for c
  proof -
    have "distinct (filter (\<lambda>p. p \<in> set cs) (prereqs_of pg c))"
      using assms(2) that by simp
    from distinct_card [OF this] show ?thesis
      by (simp add: needed_def Int_def conj_commute)
  qed
  then show ?thesis
    using count_outer [OF assms(1) assms(1) subset_refl, of pg "\<lambda>_. 0"]
    by (simp add: initial_in_degree_tab [OF assms(1)] tab_def)
qed

lemma initial_queue:
  "map fst (filter (\<lambda>(course, degree). degree = 0) (tab cs f)) = filter (\<lambda>c. f c = 0) cs"
  by (induction cs) (auto simp: tab_def)

text \<open>One round of the \<^verbatim>\<open>while\<close> loop: the in-degree of every course that lists
  \<^verbatim>\<open>current\<close> goes down by one, and those that reach 0 join the queue, in the order of
  the courses.\<close>

lemma release_fold:
  assumes "distinct cs"
  shows "distinct xs \<Longrightarrow> set xs \<subseteq> set cs \<Longrightarrow>
         fold (release_step current pg) xs (tab cs f, q)
         = (tab cs (\<lambda>c. if c \<in> set xs \<and> current \<in> set (prereqs_of pg c) then f c - 1 else f c),
            q @ filter (\<lambda>c. current \<in> set (prereqs_of pg c) \<and> f c - 1 = 0) xs)"
proof (induction xs arbitrary: f q)
  case Nil
  then show ?case by simp
next
  case (Cons x xs)
  have x: "x \<in> set cs" "x \<notin> set xs" "distinct xs" "set xs \<subseteq> set cs"
    using Cons.prems by auto
  show ?case
  proof (cases "current \<in> set (prereqs_of pg x)")
    case False
    then have "release_step current pg x (tab cs f, q) = (tab cs f, q)"
      by (simp add: release_step_def)
    then show ?thesis
      using Cons.IH [OF x(3,4), of f q] False x(2)
      by (auto simp: tab_def intro!: filter_cong)
  next
    case True
    let ?f = "f(x := f x - 1)"
    have s: "release_step current pg x (tab cs f, q)
             = (tab cs ?f, if f x - 1 = 0 then q @ [x] else q)"
      using True x(1) assms
      by (simp add: release_step_def Let_def update_tab degree_of_tab)
    have t: "tab cs (\<lambda>c. if c \<in> set xs \<and> current \<in> set (prereqs_of pg c) then ?f c - 1 else ?f c)
             = tab cs (\<lambda>c. if c \<in> set (x # xs) \<and> current \<in> set (prereqs_of pg c) then f c - 1 else f c)"
      using True x(2) by (auto simp: tab_def)
    have u: "filter (\<lambda>c. current \<in> set (prereqs_of pg c) \<and> ?f c - 1 = 0) xs
             = filter (\<lambda>c. current \<in> set (prereqs_of pg c) \<and> f c - 1 = 0) xs"
      using x(2) by (auto intro!: filter_cong)
    have "fold (release_step current pg) (x # xs) (tab cs f, q)
          = fold (release_step current pg) xs (tab cs ?f, if f x - 1 = 0 then q @ [x] else q)"
      by (simp only: fold_simps s)
    also have "\<dots> = (tab cs (\<lambda>c. if c \<in> set xs \<and> current \<in> set (prereqs_of pg c) then ?f c - 1 else ?f c),
            (if f x - 1 = 0 then q @ [x] else q)
            @ filter (\<lambda>c. current \<in> set (prereqs_of pg c) \<and> ?f c - 1 = 0) xs)"
      by (rule Cons.IH [OF x(3,4)])
    finally have r: "fold (release_step current pg) (x # xs) (tab cs f, q)
          = (tab cs (\<lambda>c. if c \<in> set (x # xs) \<and> current \<in> set (prereqs_of pg c) then f c - 1 else f c),
            (if f x - 1 = 0 then q @ [x] else q)
            @ filter (\<lambda>c. current \<in> set (prereqs_of pg c) \<and> f c - 1 = 0) xs)"
      unfolding t u .
    have "(if f x - 1 = 0 then q @ [x] else q)
            @ filter (\<lambda>c. current \<in> set (prereqs_of pg c) \<and> f c - 1 = 0) xs
         = q @ filter (\<lambda>c. current \<in> set (prereqs_of pg c) \<and> f c - 1 = 0) (x # xs)"
      using True by simp
    with r show ?thesis by (simp only:)
  qed
qed

lemma release_tab:
  assumes "distinct cs"
  shows "release current cs pg (tab cs f, q)
         = (tab cs (\<lambda>c. if current \<in> set (prereqs_of pg c) then f c - 1 else f c),
            q @ filter (\<lambda>c. current \<in> set (prereqs_of pg c) \<and> f c - 1 = 0) cs)"
proof -
  have "tab cs (\<lambda>c. if c \<in> set cs \<and> current \<in> set (prereqs_of pg c) then f c - 1 else f c)
        = tab cs (\<lambda>c. if current \<in> set (prereqs_of pg c) then f c - 1 else f c)"
    by (auto simp: tab_def)
  then show ?thesis
    using release_fold [OF assms assms subset_refl, of current pg f q]
    by (simp add: release_def)
qed

text \<open>The invariant holds when the \<^verbatim>\<open>while\<close> loop starts, every round keeps it, and so
  it holds of the result, with the empty queue.\<close>

lemma finite_needed: "finite (needed cs pg c)"
  by (simp add: needed_def)

lemma ordered_snoc:
  "ordered cs pg (r @ [x]) \<longleftrightarrow> ordered cs pg r \<and> needed cs pg x \<subseteq> set r"
proof -
  have "(\<forall>i<Suc (length r). P i) \<longleftrightarrow> (\<forall>i<length r. P i) \<and> P (length r)" for P
    using less_Suc_eq by auto
  then show ?thesis
    by (simp add: ordered_def nth_append)
qed

lemma kahn_inv_initial:
  "distinct cs \<Longrightarrow>
   kahn_inv cs pg (\<lambda>c. int (card (needed cs pg c)))
     (filter (\<lambda>c. int (card (needed cs pg c)) = 0) cs) []"
  by (auto simp: kahn_inv_def ordered_def finite_needed)

lemma kahn_inv_step:
  assumes cs: "distinct cs"
    and inv: "kahn_inv cs pg f (current # q) r"
  shows "kahn_inv cs pg (\<lambda>c. if current \<in> set (prereqs_of pg c) then f c - 1 else f c)
           (q @ filter (\<lambda>c. current \<in> set (prereqs_of pg c) \<and> f c - 1 = 0) cs)
           (r @ [current])"
proof -
  let ?N = "needed cs pg"
  let ?new = "filter (\<lambda>c. current \<in> set (prereqs_of pg c) \<and> f c - 1 = 0) cs"
  have d: "distinct (r @ current # q)" and sub: "set (r @ current # q) \<subseteq> set cs"
    and deg: "\<And>c. c \<in> set cs \<Longrightarrow> f c = int (card (?N c - set r))"
    and rdy: "\<And>c. c \<in> set cs \<Longrightarrow> c \<in> set (r @ current # q) \<longleftrightarrow> ?N c \<subseteq> set r"
    and ord: "ordered cs pg r"
    using inv by (auto simp: kahn_inv_def)
  have cur: "current \<in> set cs" "current \<notin> set r" "current \<notin> set q"
    using d sub by auto
  have in_needed: "current \<in> ?N c - set r" if "current \<in> set (prereqs_of pg c)" for c
    using that cur by (simp add: needed_def)
  have one: "f c - 1 = 0 \<longleftrightarrow> ?N c - set r = {current}"
    if "c \<in> set cs" "current \<in> set (prereqs_of pg c)" for c
  proof
    assume "f c - 1 = 0"
    then have "card (?N c - set r) = 1" using deg [OF that(1)] by simp
    then obtain x where "?N c - set r = {x}" by (auto simp: card_1_singleton_iff)
    with in_needed [OF that(2)] show "?N c - set r = {current}" by auto
  next
    assume "?N c - set r = {current}"
    then show "f c - 1 = 0" using deg [OF that(1)] by simp
  qed
  have new: "c \<in> set ?new \<longleftrightarrow> c \<in> set cs \<and> ?N c - set r = {current}" for c
  proof
    assume "c \<in> set ?new"
    then show "c \<in> set cs \<and> ?N c - set r = {current}" using one [of c] by auto
  next
    assume a: "c \<in> set cs \<and> ?N c - set r = {current}"
    then have "current \<in> set (prereqs_of pg c)" by (auto simp: needed_def)
    with a show "c \<in> set ?new" using one [of c] by auto
  qed
  have disj: "set ?new \<inter> set (r @ current # q) = {}"
  proof -
    have False if "c \<in> set ?new" "c \<in> set (r @ current # q)" for c
    proof -
      from that(1) have c: "c \<in> set cs" "?N c - set r = {current}" by (simp_all only: new)
      from rdy [OF c(1)] that(2) have "?N c \<subseteq> set r" by simp
      with c(2) show False by auto
    qed
    then show ?thesis by blast
  qed
  have 1: "distinct ((r @ [current]) @ q @ ?new)"
    using d disj cs by auto
  have 2: "set ((r @ [current]) @ q @ ?new) \<subseteq> set cs"
    using sub by auto
  have 3: "(if current \<in> set (prereqs_of pg c) then f c - 1 else f c)
           = int (card (?N c - set (r @ [current])))" if c: "c \<in> set cs" for c
  proof (cases "current \<in> set (prereqs_of pg c)")
    case True
    have "?N c - set (r @ [current]) = (?N c - set r) - {current}" by auto
    moreover have "card ((?N c - set r) - {current}) = card (?N c - set r) - 1"
      using in_needed [OF True] by (simp add: finite_needed)
    moreover have "0 < card (?N c - set r)"
      using in_needed [OF True] by (auto simp: card_gt_0_iff finite_needed)
    ultimately show ?thesis using True deg [OF c] by simp
  next
    case False
    then have "current \<notin> ?N c" by (simp add: needed_def)
    then have "?N c - set (r @ [current]) = ?N c - set r" by auto
    then show ?thesis using False deg [OF c] by simp
  qed
  have 4: "c \<in> set ((r @ [current]) @ q @ ?new) \<longleftrightarrow> ?N c \<subseteq> set (r @ [current])"
    if c: "c \<in> set cs" for c
  proof
    assume "c \<in> set ((r @ [current]) @ q @ ?new)"
    then consider "c \<in> set (r @ current # q)" | "c \<in> set ?new" by auto
    then show "?N c \<subseteq> set (r @ [current])"
    proof cases
      case 1
      with rdy [OF c] show ?thesis by auto
    next
      case 2
      then have "?N c - set r = {current}" by (simp only: new)
      then show ?thesis by auto
    qed
  next
    assume a: "?N c \<subseteq> set (r @ [current])"
    show "c \<in> set ((r @ [current]) @ q @ ?new)"
    proof (cases "?N c \<subseteq> set r")
      case True
      with rdy [OF c] show ?thesis by auto
    next
      case False
      with a have "?N c - set r = {current}" by auto
      with c have "c \<in> set ?new" by (simp only: new)
      then show ?thesis by simp
    qed
  qed
  have 5: "ordered cs pg (r @ [current])"
    using ord rdy [OF cur(1)] by (simp add: ordered_snoc)
  from 1 2 3 4 5 show ?thesis
    unfolding kahn_inv_def by blast
qed

lemma kahn_loop_inv:
  "distinct cs \<Longrightarrow> d = tab cs f \<Longrightarrow> kahn_inv cs pg f q r \<Longrightarrow>
   \<exists>f'. kahn_inv cs pg f' [] (kahn_loop cs pg d q r)"
proof (induction cs pg d q r arbitrary: f rule: kahn_loop.induct)
  case (1 courses pg d queue result)
  note cs = "1.prems"(1)
  show ?case
  proof (cases queue)
    case Nil
    with "1.prems" show ?thesis
      by (subst kahn_loop.simps) auto
  next
    case (Cons current q)
    let ?f = "\<lambda>c. if current \<in> set (prereqs_of pg c) then f c - 1 else f c"
    let ?q = "q @ filter (\<lambda>c. current \<in> set (prereqs_of pg c) \<and> f c - 1 = 0) courses"
    have rel: "release current courses pg (d, q) = (tab courses ?f, ?q)"
      unfolding "1.prems"(2) by (rule release_tab [OF cs])
    have step: "kahn_inv courses pg ?f ?q (result @ [current])"
      using kahn_inv_step [OF cs] "1.prems"(3) Cons by simp
    have "\<exists>f'. kahn_inv courses pg f' [] (kahn_loop courses pg (tab courses ?f) ?q (result @ [current]))"
      by (rule "1.IH" [OF Cons rel [symmetric] cs refl step])
    moreover have "kahn_loop courses pg d queue result
          = kahn_loop courses pg (tab courses ?f) ?q (result @ [current])"
      by (subst kahn_loop.simps) (simp add: Cons rel)
    ultimately show ?thesis by simp
  qed
qed

lemma precedes_append:
  "a \<notin> set ys \<Longrightarrow> precedes (ys @ a # zs) a b = (b \<in> set zs)"
  by (induction ys) auto

lemma ordered_precedes:
  assumes "ordered cs pg r" "c \<in> set r" "p \<in> needed cs pg c"
  shows "precedes r p c"
proof -
  from assms(2) obtain i where i: "i < length r" "r ! i = c"
    by (auto simp: in_set_conv_nth)
  with assms(1,3) have "p \<in> set (take i r)" by (auto simp: ordered_def)
  then obtain ys zs where t: "take i r = ys @ p # zs" "p \<notin> set ys"
    by (auto dest: split_list_first)
  have "r = take i r @ c # drop (Suc i) r"
    using i id_take_nth_drop [of i r] by metis
  then have "r = ys @ p # (zs @ c # drop (Suc i) r)"
    using t(1) by simp
  then have "precedes r p c = (c \<in> set (zs @ c # drop (Suc i) r))"
    using precedes_append [OF t(2)] by metis
  then show ?thesis by simp
qed

lemma topological_sort_inv:
  assumes "distinct cs" "\<forall>c\<in>set cs. distinct (prereqs_of pg c)"
  shows "\<exists>f. kahn_inv cs pg f [] (topological_sort cs pg)"
proof -
  let ?f = "\<lambda>c. int (card (needed cs pg c))"
  have "topological_sort cs pg = kahn_loop cs pg (tab cs ?f) (filter (\<lambda>c. ?f c = 0) cs) []"
    by (simp only: topological_sort_def Let_def count_in_degree_tab [OF assms] initial_queue)
  moreover have "\<exists>f'. kahn_inv cs pg f' []
                   (kahn_loop cs pg (tab cs ?f) (filter (\<lambda>c. ?f c = 0) cs) [])"
    by (rule kahn_loop_inv [OF assms(1) refl kahn_inv_initial [OF assms(1)]])
  ultimately show ?thesis by simp
qed

text \<open>When no course needs itself through a chain of prerequisites, no course is left
  out: among the courses left out, one would have all its needed prerequisites in the
  result, and the invariant puts it in the result too.\<close>

lemma kahn_complete:
  assumes inv: "kahn_inv cs pg f [] r"
    and acyc: "acyclic {(p, c). c \<in> set cs \<and> p \<in> needed cs pg c}"
  shows "set r = set cs"
proof (rule ccontr)
  let ?R = "{(p, c). c \<in> set cs \<and> p \<in> needed cs pg c}"
  assume "set r \<noteq> set cs"
  moreover have sub: "set r \<subseteq> set cs" using inv by (simp add: kahn_inv_def)
  ultimately obtain x where x: "x \<in> set cs - set r" by auto
  have "?R \<subseteq> set cs \<times> set cs" by (auto simp: needed_def)
  then have "finite ?R" by (rule finite_subset) simp
  then have "wf ?R" using acyc by (rule finite_acyclic_wf)
  from wfE_min [OF this x] obtain z where
    z: "z \<in> set cs - set r" and m: "\<And>y. (y, z) \<in> ?R \<Longrightarrow> y \<notin> set cs - set r"
    by blast
  have "needed cs pg z \<subseteq> set r"
  proof
    fix y assume y: "y \<in> needed cs pg z"
    then have "(y, z) \<in> ?R" using z by simp
    from m [OF this] y show "y \<in> set r" by (simp add: needed_def)
  qed
  moreover have "z \<in> set (r @ []) \<longleftrightarrow> needed cs pg z \<subseteq> set r"
    using inv z unfolding kahn_inv_def by blast
  ultimately show False using z by simp
qed

text \<open>The two dictionaries of the first loop.\<close>

lemma collect_courses_lookup_gen:
  assumes "\<And>c. map_of a c = (if c \<in> S then map_option node_of (course_query g c) else None)"
    and "\<And>c. map_of b c = (if c \<in> S then map_option (\<lambda>r. truthy_codes (r_prerequisites r))
                                             (course_query g c) else None)"
  shows "map_of (fst (fold (\<lambda>course_code (all_courses, prerequisite_graph).
             case course_query g course_code of
               None \<Rightarrow> (all_courses, prerequisite_graph)
             | Some record \<Rightarrow>
                 (AList.update course_code (node_of record) all_courses,
                  AList.update course_code (truthy_codes (r_prerequisites record))
                    prerequisite_graph)) xs (a, b))) c
         = (if c \<in> S \<union> set xs then map_option node_of (course_query g c) else None)
       \<and> map_of (snd (fold (\<lambda>course_code (all_courses, prerequisite_graph).
             case course_query g course_code of
               None \<Rightarrow> (all_courses, prerequisite_graph)
             | Some record \<Rightarrow>
                 (AList.update course_code (node_of record) all_courses,
                  AList.update course_code (truthy_codes (r_prerequisites record))
                    prerequisite_graph)) xs (a, b))) c
         = (if c \<in> S \<union> set xs then map_option (\<lambda>r. truthy_codes (r_prerequisites r))
                                             (course_query g c) else None)"
  using assms
proof (induction xs arbitrary: a b S)
  case Nil
  then show ?case by simp
next
  case (Cons x xs)
  let ?a = "case course_query g x of None \<Rightarrow> a
            | Some record \<Rightarrow> AList.update x (node_of record) a"
  let ?b = "case course_query g x of None \<Rightarrow> b
            | Some record \<Rightarrow> AList.update x (truthy_codes (r_prerequisites record)) b"
  have a: "map_of ?a c = (if c \<in> insert x S then map_option node_of (course_query g c) else None)"
    for c
    using Cons.prems(1) [of c] by (auto simp: update_conv' split: option.splits)
  have b: "map_of ?b c = (if c \<in> insert x S
                          then map_option (\<lambda>r. truthy_codes (r_prerequisites r)) (course_query g c)
                          else None)" for c
    using Cons.prems(2) [of c] by (auto simp: update_conv' split: option.splits)
  have s: "(case course_query g x of
               None \<Rightarrow> (a, b)
             | Some record \<Rightarrow>
                 (AList.update x (node_of record) a,
                  AList.update x (truthy_codes (r_prerequisites record)) b)) = (?a, ?b)"
    by (simp split: option.splits)
  from Cons.IH [of ?a "insert x S" ?b, OF a b] show ?case
    by (simp add: s)
qed

lemma collect_courses_lookup:
  "map_of (fst (collect_courses g codes)) c
     = (if c \<in> set codes then map_option node_of (course_query g c) else None)"
  "map_of (snd (collect_courses g codes)) c
     = (if c \<in> set codes then map_option (\<lambda>r. truthy_codes (r_prerequisites r))
                                  (course_query g c) else None)"
  unfolding collect_courses_def
  using collect_courses_lookup_gen [of "[]" "{}" g "[]" codes c] by simp_all

lemma prereqs_of_collect:
  "c \<in> set codes \<Longrightarrow> prereqs_of (snd (collect_courses g codes)) c = direct_prerequisites g c"
  by (simp add: prereqs_of_def collect_courses_lookup direct_prerequisites_def node_of_def
      course_query_def split: option.splits)

lemma distinct_sorted_list_of_fset: "distinct (sorted_list_of_fset S)"
  by (simp add: sorted_list_of_fset.rep_eq)

lemma distinct_direct_prerequisites: "distinct (direct_prerequisites g c)"
  by (simp add: direct_prerequisites_def node_of_def course_query_def truthy_codes_def
      prerequisite_codes_def distinct_sorted_list_of_fset split: option.splits)

text \<open>The semesters, one after the other, are the courses of the sequence that are in
  \<^verbatim>\<open>all_courses\<close>, in the order of the sequence.\<close>

lemma pack_fold:
  "fold (pack_step all_courses m) sequence (ss, cur, cr) = (ss', cur', cr') \<Longrightarrow>
   concat ss' @ cur' = concat ss @ cur @ filter (\<lambda>c. map_of all_courses c \<noteq> None) sequence"
proof (induction sequence arbitrary: ss cur cr)
  case Nil
  then show ?case by simp
next
  case (Cons x xs)
  obtain ss1 cur1 cr1 where s: "pack_step all_courses m x (ss, cur, cr) = (ss1, cur1, cr1)"
    by (cases "pack_step all_courses m x (ss, cur, cr)")
  have 1: "concat ss1 @ cur1 = concat ss @ cur @ filter (\<lambda>c. map_of all_courses c \<noteq> None) [x]"
    using s by (auto simp: pack_step_def split: option.splits if_splits)
  from Cons.prems s have "fold (pack_step all_courses m) xs (ss1, cur1, cr1) = (ss', cur', cr')"
    by simp
  from Cons.IH [OF this] have "concat ss' @ cur'
      = (concat ss1 @ cur1) @ filter (\<lambda>c. map_of all_courses c \<noteq> None) xs"
    by simp
  then show ?case unfolding 1 by simp
qed

lemma concat_pack_semesters:
  "concat (pack_semesters all_courses m sequence)
   = filter (\<lambda>c. map_of all_courses c \<noteq> None) sequence"
proof -
  obtain ss cur cr where s: "fold (pack_step all_courses m) sequence ([], [], 0) = (ss, cur, cr)"
    by (cases "fold (pack_step all_courses m) sequence ([], [], 0)")
  from pack_fold [OF s] show ?thesis
    by (auto simp: pack_semesters_def s)
qed

lemma linear_order_recommend:
  "linear_order (recommend_course_sequence g target_courses m)
   = filter (\<lambda>c. map_of (fst (collect_courses g target_courses)) c \<noteq> None)
       (topological_sort target_courses (snd (collect_courses g target_courses)))"
  by (simp add: linear_order_def recommend_course_sequence_def Let_def concat_pack_semesters
      split: prod.splits)

lemma acyclic_ranked:
  fixes rank :: "'a \<Rightarrow> nat"
  assumes "\<And>p c. (p, c) \<in> R \<Longrightarrow> rank p < rank c"
  shows "acyclic R"
proof -
  have "R \<subseteq> measure rank" using assms by auto
  then have "wf R" by (rule wf_subset [OF wf_measure])
  then show ?thesis by (rule wf_acyclic)
qed

text \<open>
  C7. For distinct target courses that are all in the graph and whose prerequisite
  relation within the targets is acyclic, the semesters of the plan that
  \<^verbatim>\<open>recommend_course_sequence\<close> returns, one after the other, are the order of
  \<^verbatim>\<open>_topological_sort\<close>; this order has every target course exactly once, and every
  prerequisite stands in it before each target course that lists it. So for targets
  A, B and C with A a prerequisite of B and B one of C, A comes before B and B before C.
\<close>

theorem recommended_sequence_respects_prerequisites:
  assumes d: "distinct target_courses"
    and present: "set target_courses \<subseteq> fset (fmdom (course_nodes g))"
    and acyc: "acyclic (prerequisite_within g target_courses)"
  shows "linear_order (recommend_course_sequence g target_courses max_credits_per_semester)
           = topological_sort target_courses (snd (collect_courses g target_courses))
         \<and> distinct (linear_order (recommend_course_sequence g target_courses max_credits_per_semester))
         \<and> set (linear_order (recommend_course_sequence g target_courses max_credits_per_semester))
             = set target_courses
         \<and> (\<forall>(p, c) \<in> prerequisite_within g target_courses.
              precedes (linear_order (recommend_course_sequence g target_courses
                          max_credits_per_semester)) p c)"
proof -
  let ?pg = "snd (collect_courses g target_courses)"
  let ?r = "topological_sort target_courses ?pg"
  have dp: "\<forall>c\<in>set target_courses. distinct (prereqs_of ?pg c)"
    by (simp add: prereqs_of_collect distinct_direct_prerequisites)
  from topological_sort_inv [OF d dp] obtain f where inv: "kahn_inv target_courses ?pg f [] ?r"
    by blast
  have rel: "{(p, c). c \<in> set target_courses \<and> p \<in> needed target_courses ?pg c}
             = prerequisite_within g target_courses"
    by (auto simp: needed_def prerequisite_within_def prereqs_of_collect)
  have set_r: "set ?r = set target_courses"
    by (rule kahn_complete [OF inv]) (simp only: rel acyc)
  have "map_of (fst (collect_courses g target_courses)) c \<noteq> None" if "c \<in> set ?r" for c
  proof -
    from that set_r present have "c \<in> set target_courses" "c |\<in>| fmdom (course_nodes g)"
      by auto
    then show ?thesis
      by (auto simp: collect_courses_lookup course_query_def fmdom_notD split: option.splits)
  qed
  then have lin: "linear_order (recommend_course_sequence g target_courses max_credits_per_semester) = ?r"
    unfolding linear_order_recommend by (intro filter_True) simp
  have "distinct ?r" using inv by (simp add: kahn_inv_def)
  moreover have "precedes ?r p c" if "(p, c) \<in> prerequisite_within g target_courses" for p c
  proof -
    from that have "c \<in> set ?r" "p \<in> needed target_courses ?pg c"
      by (auto simp: set_r prerequisite_within_def needed_def prereqs_of_collect)
    moreover have "ordered target_courses ?pg ?r" using inv by (simp add: kahn_inv_def)
    ultimately show ?thesis by (intro ordered_precedes)
  qed
  ultimately show ?thesis
    unfolding lin using set_r by auto
qed

text \<open>In the graph of the example catalog \<^verbatim>\<open>CS 1400\<close> is the prerequisite of
  \<^verbatim>\<open>CS 1410\<close>, which is the prerequisite of \<^verbatim>\<open>CS 2420\<close>; asked for in the order
  \<^verbatim>\<open>CS 2420, CS 1410, CS 1400\<close>, they are recommended in the order
  \<^verbatim>\<open>CS 1400, CS 1410, CS 2420\<close>.\<close>

lemma catalog_graph_direct_prerequisites:
  "direct_prerequisites catalog_graph ''CS 2420'' = [''CS 1410'']"
  "direct_prerequisites catalog_graph ''CS 1410'' = [''CS 1400'']"
  "direct_prerequisites catalog_graph ''CS 1400'' = []"
  using catalog_graph_chain
  by (auto simp: chain_prerequisites_def direct_prerequisites_def node_of_def truthy_codes_def)

lemma chain_targets_present:
  "set chain_targets \<subseteq> fset (fmdom (course_nodes catalog_graph))"
  using catalog_graph_chain
  by (auto simp: chain_prerequisites_def chain_targets_def course_query_def
      intro: fmdomI split: option.splits)

lemma chain_targets_acyclic: "acyclic (prerequisite_within catalog_graph chain_targets)"
proof (rule acyclic_ranked)
  fix p c
  assume "(p, c) \<in> prerequisite_within catalog_graph chain_targets"
  then show "length (takeWhile (\<lambda>x. x \<noteq> p) (rev chain_targets))
             < length (takeWhile (\<lambda>x. x \<noteq> c) (rev chain_targets))"
    by (auto simp: prerequisite_within_def chain_targets_def catalog_graph_direct_prerequisites)
qed

lemma chain_targets_order:
  "linear_order (recommend_course_sequence catalog_graph chain_targets 15)
   = [''CS 1400'', ''CS 1410'', ''CS 2420'']"
  by code_simp

theorem recommended_sequence_respects_prerequisites_witness:
  "distinct chain_targets
   \<and> set chain_targets \<subseteq> fset (fmdom (course_nodes catalog_graph))
   \<and> acyclic (prerequisite_within catalog_graph chain_targets)
   \<and> (''CS 1400'', ''CS 1410'') \<in> prerequisite_within catalog_graph chain_targets
   \<and> (''CS 1410'', ''CS 2420'') \<in> prerequisite_within catalog_graph chain_targets
   \<and> linear_order (recommend_course_sequence catalog_graph chain_targets 15)
       = [''CS 1400'', ''CS 1410'', ''CS 2420'']
   \<and> precedes (linear_order (recommend_course_sequence catalog_graph chain_targets 15))
       ''CS 1400'' ''CS 1410''
   \<and> precedes (linear_order (recommend_course_sequence catalog_graph chain_targets 15))
       ''CS 1410'' ''CS 2420''"
proof -
  have d: "distinct chain_targets" by (simp add: chain_targets_def)
  have m: "(''CS 1400'', ''CS 1410'') \<in> prerequisite_within catalog_graph chain_targets"
    "(''CS 1410'', ''CS 2420'') \<in> prerequisite_within catalog_graph chain_targets"
    by (simp_all add: prerequisite_within_def chain_targets_def catalog_graph_direct_prerequisites)
  from recommended_sequence_respects_prerequisites
         [OF d chain_targets_present chain_targets_acyclic, of 15] m
  show ?thesis
    using d chain_targets_present chain_targets_acyclic chain_targets_order by blast
qed

end
